theory Spec2Isabelle
  imports Main
begin

section \<open>The pairing site: data model\<close>

text \<open>
  The repository is one Express server, \<^verbatim>\<open>index.js\<close>, kept in three near-identical
  revisions. Revisions one and three agree on everything modelled here; revision two
  differs in the phone-length threshold of \<^verbatim>\<open>POST /api/pair\<close> and in the loop of
  \<^verbatim>\<open>encodeSession\<close>. Definitions without a suffix follow revision one (and three);
  a definition ending in \<open>2\<close> follows revision two.

  Strings are \<^typ>\<open>string\<close>: the UTF-8 bytes of the JavaScript string. The characters the
  code inspects (digits, the solidus of a path, the characters JSON escapes) are ASCII,
  one byte each, so filtering and escaping act on bytes as they act on code units.

  The pairing code is the exception. The regular expression that formats it counts UTF-16
  code units, so the code is kept as the list of its code units, each a number below
  65536.
\<close>

type_synonym code_unit = nat

type_synonym utf16 = "code_unit list"

definition units_of_ascii :: "string \<Rightarrow> utf16" where
  \<comment> \<open>the code units of an ASCII text: one for each character\<close>
  "units_of_ascii s = map of_char s"

subsection \<open>Paths and the disk\<close>

text \<open>
  A path is the list of its components below the root, already normalised. The disk is an
  association list from paths to what is stored there, in the order in which
  \<^verbatim>\<open>readdirSync\<close> lists siblings. \<open>Denied\<close> is a regular file that cannot be opened
  (\<^verbatim>\<open>EACCES\<close>); \<open>Dangling\<close> is a link whose target is missing, so that
  \<^verbatim>\<open>existsSync\<close> is false and \<^verbatim>\<open>statSync\<close> throws \<^verbatim>\<open>ENOENT\<close>.
\<close>

type_synonym path = "string list"

datatype kind = File string | Denied | Dangling | Folder

type_synonym disk = "(path \<times> kind) list"

datatype exn =
    ENOENT | ENOTDIR | EISDIR | EACCES | EBUSY | TypeError | SocketError
  | LibraryError string  \<comment> \<open>an error of the messaging library, with its message\<close>

fun split_on :: "char \<Rightarrow> string \<Rightarrow> string list" where
  "split_on c [] = [[]]"
| "split_on c (x # xs) =
     (if x = c then [] # split_on c xs
      else (case split_on c xs of [] \<Rightarrow> [[x]] | r # rs \<Rightarrow> (x # r) # rs))"

definition norm_step :: "path \<Rightarrow> string \<Rightarrow> path" where
  "norm_step acc seg =
     (if seg = [] \<or> seg = ''.'' then acc
      else if seg = ''..'' then butlast acc
      else acc @ [seg])"

definition path_join :: "path \<Rightarrow> string list \<Rightarrow> path" where
  \<comment> \<open>\<^verbatim>\<open>path.join(base, ...segs)\<close> on POSIX, for an absolute \<open>base\<close>\<close>
  "path_join base segs = foldl norm_step base (concat (map (split_on CHR ''/'') segs))"

definition child :: "path \<Rightarrow> string \<Rightarrow> path" where
  \<comment> \<open>\<^verbatim>\<open>path.join(dir, name)\<close> for the name of a directory entry, which is one component\<close>
  "child dir name = dir @ [name]"

definition disk_lookup :: "disk \<Rightarrow> path \<Rightarrow> kind option" where
  "disk_lookup d p = (if p = [] then Some Folder else map_of d p)"

definition existsSync :: "disk \<Rightarrow> path \<Rightarrow> bool" where
  "existsSync d p =
     (case disk_lookup d p of None \<Rightarrow> False | Some Dangling \<Rightarrow> False | Some _ \<Rightarrow> True)"

definition readdirSync :: "disk \<Rightarrow> path \<Rightarrow> exn + string list" where
  "readdirSync d p =
     (case disk_lookup d p of
        None \<Rightarrow> Inl ENOENT
      | Some Folder \<Rightarrow> Inr (map (last \<circ> fst) (filter (\<lambda>(q, k). q \<noteq> [] \<and> butlast q = p) d))
      | Some Dangling \<Rightarrow> Inl ENOENT
      | Some _ \<Rightarrow> Inl ENOTDIR)"

definition statSync_isFile :: "disk \<Rightarrow> path \<Rightarrow> exn + bool" where
  \<comment> \<open>\<^verbatim>\<open>fs.statSync(p).isFile()\<close>\<close>
  "statSync_isFile d p =
     (case disk_lookup d p of
        None \<Rightarrow> Inl ENOENT
      | Some Dangling \<Rightarrow> Inl ENOENT
      | Some Folder \<Rightarrow> Inr False
      | Some _ \<Rightarrow> Inr True)"

definition readFileSync :: "disk \<Rightarrow> path \<Rightarrow> exn + string" where
  \<comment> \<open>\<^verbatim>\<open>fs.readFileSync(p, 'utf8')\<close>: the text of a regular file\<close>
  "readFileSync d p =
     (case disk_lookup d p of
        None \<Rightarrow> Inl ENOENT
      | Some Dangling \<Rightarrow> Inl ENOENT
      | Some Folder \<Rightarrow> Inl EISDIR
      | Some Denied \<Rightarrow> Inl EACCES
      | Some (File text) \<Rightarrow> Inr text)"

definition removeSync :: "path set \<Rightarrow> disk \<Rightarrow> path \<Rightarrow> exn + disk" where
  \<comment> \<open>\<^verbatim>\<open>fse.removeSync(p)\<close>: removes \<open>p\<close> and everything below it; a path in \<open>pinned\<close>
      cannot be removed and the call throws, leaving the disk as it was\<close>
  "removeSync pinned d p =
     (if p \<in> pinned then Inl EBUSY
      else Inr (filter (\<lambda>(q, k). \<not> (take (length p) q = p)) d))"

fun ensure_prefixes :: "disk \<Rightarrow> path \<Rightarrow> string list \<Rightarrow> exn + disk" where
  "ensure_prefixes d here [] = Inr d"
| "ensure_prefixes d here (c # cs) =
     (case disk_lookup d (here @ [c]) of
        None \<Rightarrow> ensure_prefixes (d @ [(here @ [c], Folder)]) (here @ [c]) cs
      | Some Folder \<Rightarrow> ensure_prefixes d (here @ [c]) cs
      | Some Dangling \<Rightarrow> Inl ENOENT
      | Some _ \<Rightarrow> Inl ENOTDIR)"

definition ensureDirSync :: "disk \<Rightarrow> path \<Rightarrow> exn + disk" where
  \<comment> \<open>\<^verbatim>\<open>fse.ensureDirSync(p)\<close>: creates \<open>p\<close> and its missing ancestors\<close>
  "ensureDirSync d p = ensure_prefixes d [] p"

definition writeFile :: "disk \<Rightarrow> path \<Rightarrow> string \<Rightarrow> exn + disk" where
  \<comment> \<open>the library's credential writes: create or overwrite a regular file in an
      existing folder\<close>
  "writeFile d p text =
     (if p = [] then Inl EISDIR
      else case disk_lookup d (butlast p) of
        Some Folder \<Rightarrow>
          (case disk_lookup d p of
             None \<Rightarrow> Inr (d @ [(p, File text)])
           | Some Folder \<Rightarrow> Inl EISDIR
           | Some Denied \<Rightarrow> Inl EACCES
           | Some _ \<Rightarrow> Inr (map (\<lambda>(q, k). if q = p then (q, File text) else (q, k)) d))
      | Some Dangling \<Rightarrow> Inl ENOENT
      | None \<Rightarrow> Inl ENOENT
      | Some _ \<Rightarrow> Inl ENOTDIR)"

subsection \<open>Session records and the server state\<close>

datatype status = Pending | Connected

fun status_text :: "status \<Rightarrow> string" where
  "status_text Pending = ''pending''"
| "status_text Connected = ''connected''"

record session =
  sock :: nat
  phone :: string
  status :: status
  sessionString :: "string option"
  createdAt :: nat

text \<open>
  A socket of the messaging library is known by its handle. \<^verbatim>\<open>sock.end()\<close> closes a live
  socket, does nothing on one already ended, and throws on a broken one.
\<close>

datatype sock_state = Live | Ended | Broken

record server =
  dirname :: path
  sessions :: "string \<rightharpoonup> session"
  disk :: disk
  socks :: "nat \<Rightarrow> sock_state"
  pinned :: "path set"

definition sock_end :: "(nat \<Rightarrow> sock_state) \<Rightarrow> nat \<Rightarrow> exn + (nat \<Rightarrow> sock_state)" where
  "sock_end ss h =
     (case ss h of Live \<Rightarrow> Inr (ss(h := Ended)) | Ended \<Rightarrow> Inr ss | Broken \<Rightarrow> Inl SocketError)"

definition session_dir :: "server \<Rightarrow> string \<Rightarrow> path" where
  \<comment> \<open>\<^verbatim>\<open>path.join(__dirname, 'sessions', sessionId)\<close>\<close>
  "session_dir st sessionId = path_join (dirname st) [''sessions'', sessionId]"

subsection \<open>cleanupSession\<close>

text \<open>
  The body of the outer \<^verbatim>\<open>try\<close>: \<open>Inl\<close> is an exception on its way to the outer
  \<^verbatim>\<open>catch\<close>. Only \<^verbatim>\<open>removeSync\<close> can throw there, before anything has been changed;
  the exception of \<^verbatim>\<open>sock.end()\<close> is swallowed by the inner \<^verbatim>\<open>try\<close>.
\<close>

definition cleanup_body :: "string \<Rightarrow> server \<Rightarrow> exn + server" where
  "cleanup_body sessionId st =
     (let sessionPath = session_dir st sessionId in
      case (if existsSync (disk st) sessionPath
            then removeSync (pinned st) (disk st) sessionPath
            else Inr (disk st)) of
        Inl e \<Rightarrow> Inl e
      | Inr d \<Rightarrow>
          (let ss = (case sessions st sessionId of
                       None \<Rightarrow> socks st
                     | Some s \<Rightarrow> (case sock_end (socks st) (sock s) of
                                   Inl e \<Rightarrow> socks st
                                 | Inr ss' \<Rightarrow> ss'))
           in Inr (st\<lparr>disk := d, socks := ss, sessions := (sessions st)(sessionId := None)\<rparr>)))"

definition cleanupSession_result :: "string \<Rightarrow> server \<Rightarrow> exn + server" where
  \<comment> \<open>the whole function with its outer \<^verbatim>\<open>catch\<close>, which logs and returns\<close>
  "cleanupSession_result sessionId st =
     (case cleanup_body sessionId st of Inl e \<Rightarrow> Inr st | Inr st' \<Rightarrow> Inr st')"

definition cleanupSession :: "string \<Rightarrow> server \<Rightarrow> server" where
  "cleanupSession sessionId st =
     (case cleanupSession_result sessionId st of Inl e \<Rightarrow> st | Inr st' \<Rightarrow> st')"

subsection \<open>Responses and the two read-only endpoints\<close>

text \<open>
  The message of a failure response is kept as a tag; the comment gives the text of
  revision one.
\<close>

datatype msg =
    PhoneRequired        \<comment> \<open>Phone number is required\<close>
  | InvalidPhone         \<comment> \<open>Invalid phone number ...\<close>
  | PairingFailed exn   \<comment> \<open>Failed to get pairing code: ...\<close>
  | ServerError exn      \<comment> \<open>Server error: ...\<close>
  | SessionNotFound      \<comment> \<open>Session not found or expired\<close>
  | NotConnectedYet status \<comment> \<open>Not connected yet ...\<close>
  | StringNotReady       \<comment> \<open>Session string not ready yet ...\<close>

datatype body =
    Failure msg                      \<comment> \<open>\<^verbatim>\<open>{success: false, message}\<close>\<close>
  | PairOk "utf16 option" string     \<comment> \<open>\<^verbatim>\<open>{success: true, code, sessionId, message}\<close>\<close>
  | StatusBody string                \<comment> \<open>\<^verbatim>\<open>{status}\<close>\<close>
  | SessionOk string string          \<comment> \<open>\<^verbatim>\<open>{success: true, sessionId, sessionString}\<close>\<close>

record response =
  http :: nat
  payload :: body

definition get_status :: "server \<Rightarrow> string \<Rightarrow> response" where
  \<comment> \<open>\<^verbatim>\<open>GET /api/status/:sessionId\<close>; \<^verbatim>\<open>res.json\<close> without \<^verbatim>\<open>res.status\<close> answers 200\<close>
  "get_status st sessionId =
     (case sessions st sessionId of
        None \<Rightarrow> \<lparr>http = 200, payload = StatusBody ''not_found''\<rparr>
      | Some s \<Rightarrow> \<lparr>http = 200, payload = StatusBody (status_text (status s))\<rparr>)"

definition falsy_string :: "string option \<Rightarrow> bool" where
  \<comment> \<open>\<^verbatim>\<open>!x\<close> for \<open>x\<close> null or a string: null and the empty string are falsy\<close>
  "falsy_string x = (case x of None \<Rightarrow> True | Some s \<Rightarrow> s = [])"

definition get_session :: "server \<Rightarrow> string \<Rightarrow> response" where
  \<comment> \<open>\<^verbatim>\<open>GET /api/session/:sessionId\<close>\<close>
  "get_session st sessionId =
     (case sessions st sessionId of
        None \<Rightarrow> \<lparr>http = 404, payload = Failure SessionNotFound\<rparr>
      | Some s \<Rightarrow>
          if status s \<noteq> Connected
          then \<lparr>http = 400, payload = Failure (NotConnectedYet (status s))\<rparr>
          else if falsy_string (sessionString s)
          then \<lparr>http = 500, payload = Failure StringNotReady\<rparr>
          else \<lparr>http = 200, payload = SessionOk sessionId (the (sessionString s))\<rparr>)"

section \<open>The credential encoder\<close>

subsection \<open>A JavaScript object with string values\<close>

text \<open>
  \<^verbatim>\<open>files\<close> starts as \<^verbatim>\<open>{}\<close> and is filled by \<^verbatim>\<open>files[file] = content\<close>. Its own
  properties are kept in creation order. An assignment to the key \<^verbatim>\<open>__proto__\<close> reaches
  the setter inherited from \<^verbatim>\<open>Object.prototype\<close>, which ignores a value that is neither an
  object nor null: no own property is created.
\<close>

type_synonym jsobject = "(string \<times> string) list"

fun put :: "string \<Rightarrow> string \<Rightarrow> jsobject \<Rightarrow> jsobject" where
  "put k v [] = [(k, v)]"
| "put k v (p # ps) = (if fst p = k then (k, v) # ps else p # put k v ps)"

definition obj_assign :: "jsobject \<Rightarrow> string \<Rightarrow> string \<Rightarrow> jsobject" where
  "obj_assign ob k v = (if k = ''__proto__'' then ob else put k v ob)"

subsection \<open>JSON.stringify and base64\<close>

definition dquote :: char where
  "dquote = CHR 0x22"

definition bslash :: char where
  "bslash = CHR 0x5C"

definition hex_digit :: "nat \<Rightarrow> char" where
  "hex_digit n = ''0123456789abcdef'' ! (n mod 16)"

definition json_escape :: "char \<Rightarrow> string" where
  "json_escape c =
     (let n = (of_char c :: nat) in
      if c = dquote then [bslash, dquote]
      else if c = bslash then [bslash, bslash]
      else if n = 8 then [bslash, CHR ''b'']
      else if n = 9 then [bslash, CHR ''t'']
      else if n = 10 then [bslash, CHR ''n'']
      else if n = 12 then [bslash, CHR ''f'']
      else if n = 13 then [bslash, CHR ''r'']
      else if n < 32 then [bslash, CHR ''u'', CHR ''0'', CHR ''0'', hex_digit (n div 16), hex_digit n]
      else [c])"

definition json_quote :: "string \<Rightarrow> string" where
  "json_quote s = dquote # concat (map json_escape s) @ [dquote]"

fun join :: "'a list \<Rightarrow> 'a list list \<Rightarrow> 'a list" where
  "join sep [] = []"
| "join sep [x] = x"
| "join sep (x # y # r) = x @ sep @ join sep (y # r)"

definition is_digit :: "char \<Rightarrow> bool" where
  "is_digit c = (48 \<le> (of_char c :: nat) \<and> (of_char c :: nat) \<le> 57)"

definition digits_value :: "string \<Rightarrow> int" where
  "digits_value s = foldl (\<lambda>a c. 10 * a + (of_char c - 48)) 0 s"

definition is_array_index :: "string \<Rightarrow> bool" where
  \<comment> \<open>the canonical decimal form of an integer below \<open>2^32 - 1\<close>\<close>
  "is_array_index k =
     (k \<noteq> [] \<and> list_all is_digit k \<and> (k = ''0'' \<or> hd k \<noteq> CHR ''0'') \<and>
      length k \<le> 10 \<and> digits_value k < 4294967295)"

definition own_keys_order :: "jsobject \<Rightarrow> jsobject" where
  \<comment> \<open>property enumeration: integer keys ascending, then the others in creation order\<close>
  "own_keys_order ob =
     sort_key (\<lambda>(k, v). digits_value k) (filter (\<lambda>(k, v). is_array_index k) ob)
     @ filter (\<lambda>(k, v). \<not> is_array_index k) ob"

definition JSON_stringify :: "jsobject \<Rightarrow> string" where
  "JSON_stringify ob =
     ''{'' @ join '','' (map (\<lambda>(k, v). json_quote k @ '':'' @ json_quote v) (own_keys_order ob))
     @ ''}''"

definition b64_alphabet :: string where
  "b64_alphabet = ''ABCDEFGHIJKLMNOPQRSTUVWXYZabcdefghijklmnopqrstuvwxyz0123456789+/''"

definition b64_digit :: "nat \<Rightarrow> char" where
  "b64_digit n = b64_alphabet ! (n mod 64)"

fun base64 :: "string \<Rightarrow> string" where
  \<comment> \<open>\<^verbatim>\<open>Buffer.from(s).toString('base64')\<close> on the UTF-8 bytes of \<open>s\<close>\<close>
  "base64 [] = []"
| "base64 [a] =
     (let x = (of_char a :: nat) in
      [b64_digit (x div 4), b64_digit ((x mod 4) * 16), CHR ''='', CHR ''=''])"
| "base64 [a, b] =
     (let x = (of_char a :: nat); y = (of_char b :: nat) in
      [b64_digit (x div 4), b64_digit ((x mod 4) * 16 + y div 16),
       b64_digit ((y mod 16) * 4), CHR ''=''])"
| "base64 (a # b # c # r) =
     (let x = (of_char a :: nat); y = (of_char b :: nat); z = (of_char c :: nat) in
      [b64_digit (x div 4), b64_digit ((x mod 4) * 16 + y div 16),
       b64_digit ((y mod 16) * 4 + z div 64), b64_digit (z mod 64)] @ base64 r)"

subsection \<open>encodeSession\<close>

text \<open>The \<^verbatim>\<open>for\<close> loop of revision one, with \<open>files\<close> as the accumulator.\<close>

fun collect_files :: "disk \<Rightarrow> path \<Rightarrow> string list \<Rightarrow> jsobject \<Rightarrow> exn + jsobject" where
  "collect_files d sessionPath [] files = Inr files"
| "collect_files d sessionPath (file # rest) files =
     (let filePath = child sessionPath file in
      case statSync_isFile d filePath of
        Inl e \<Rightarrow> Inl e
      | Inr isFile \<Rightarrow>
          if isFile
          then (case readFileSync d filePath of
                  Inl e \<Rightarrow> Inl e
                | Inr content \<Rightarrow> collect_files d sessionPath rest (obj_assign files file content))
          else collect_files d sessionPath rest files)"

text \<open>The loop of revision two: every entry is read, with no \<^verbatim>\<open>statSync\<close> before.\<close>

fun collect_files2 :: "disk \<Rightarrow> path \<Rightarrow> string list \<Rightarrow> jsobject \<Rightarrow> exn + jsobject" where
  "collect_files2 d sessionPath [] files = Inr files"
| "collect_files2 d sessionPath (file # rest) files =
     (let filePath = child sessionPath file in
      case readFileSync d filePath of
        Inl e \<Rightarrow> Inl e
      | Inr content \<Rightarrow> collect_files2 d sessionPath rest (obj_assign files file content))"

definition encode_files :: "disk \<Rightarrow> path \<Rightarrow> exn + jsobject option" where
  \<comment> \<open>the \<^verbatim>\<open>try\<close> block up to the end of the loop: \<open>None\<close> is the early \<^verbatim>\<open>return null\<close>\<close>
  "encode_files d sessionPath =
     (let credsPath = child sessionPath ''creds.json'' in
      if \<not> existsSync d credsPath then Inr None
      else case readdirSync d sessionPath of
        Inl e \<Rightarrow> Inl e
      | Inr allFiles \<Rightarrow>
          (case collect_files d sessionPath allFiles [] of
             Inl e \<Rightarrow> Inl e
           | Inr files \<Rightarrow> Inr (Some files)))"

definition encode_body :: "disk \<Rightarrow> path \<Rightarrow> exn + string option" where
  \<comment> \<open>the whole \<^verbatim>\<open>try\<close> block: \<open>Inl\<close> is an exception on its way to the \<^verbatim>\<open>catch\<close>\<close>
  "encode_body d sessionPath =
     (case encode_files d sessionPath of
        Inl e \<Rightarrow> Inl e
      | Inr None \<Rightarrow> Inr None
      | Inr (Some files) \<Rightarrow> Inr (Some (base64 (JSON_stringify files))))"

definition encodeSession_result :: "disk \<Rightarrow> path \<Rightarrow> exn + string option" where
  \<comment> \<open>the function with its \<^verbatim>\<open>catch\<close>, which logs and returns null; \<open>Inl\<close> would be an
      exception that leaves the function\<close>
  "encodeSession_result d sessionPath =
     (case encode_body d sessionPath of Inl e \<Rightarrow> Inr None | Inr r \<Rightarrow> Inr r)"

definition encodeSession :: "disk \<Rightarrow> path \<Rightarrow> string option" where
  "encodeSession d sessionPath =
     (case encodeSession_result d sessionPath of Inl e \<Rightarrow> None | Inr r \<Rightarrow> r)"

definition encode_files2 :: "disk \<Rightarrow> path \<Rightarrow> exn + jsobject option" where
  "encode_files2 d sessionPath =
     (let credsPath = child sessionPath ''creds.json'' in
      if \<not> existsSync d credsPath then Inr None
      else case readdirSync d sessionPath of
        Inl e \<Rightarrow> Inl e
      | Inr allFiles \<Rightarrow>
          (case collect_files2 d sessionPath allFiles [] of
             Inl e \<Rightarrow> Inl e
           | Inr files \<Rightarrow> Inr (Some files)))"

definition encode_body2 :: "disk \<Rightarrow> path \<Rightarrow> exn + string option" where
  "encode_body2 d sessionPath =
     (case encode_files2 d sessionPath of
        Inl e \<Rightarrow> Inl e
      | Inr None \<Rightarrow> Inr None
      | Inr (Some files) \<Rightarrow> Inr (Some (base64 (JSON_stringify files))))"

definition encodeSession_result2 :: "disk \<Rightarrow> path \<Rightarrow> exn + string option" where
  "encodeSession_result2 d sessionPath =
     (case encode_body2 d sessionPath of Inl e \<Rightarrow> Inr None | Inr r \<Rightarrow> Inr r)"

definition encodeSession2 :: "disk \<Rightarrow> path \<Rightarrow> string option" where
  "encodeSession2 d sessionPath =
     (case encodeSession_result2 d sessionPath of Inl e \<Rightarrow> None | Inr r \<Rightarrow> r)"

section \<open>Reading a session string back\<close>

text \<open>
  The repository only writes session strings. A consumer reads one back with
  \<^verbatim>\<open>JSON.parse(Buffer.from(blob, 'base64').toString())\<close>. Both library functions are
  modelled on the inputs that matter here: padded base64 over the standard alphabet, and a
  JSON object whose values are strings, written without white space. On any other input the
  model answers \<open>None\<close>. An escape \<^verbatim>\<open>\uXXXX\<close> of a surrogate has no UTF-8 form and is
  refused as well.
\<close>

fun find_pos :: "char \<Rightarrow> string \<Rightarrow> nat option" where
  "find_pos c [] = None"
| "find_pos c (x # xs) = (if x = c then Some 0 else map_option Suc (find_pos c xs))"

definition b64_value :: "char \<Rightarrow> nat option" where
  "b64_value c = find_pos c b64_alphabet"

fun unbase64 :: "string \<Rightarrow> string option" where
  "unbase64 (a # b # c # d # rest) =
     (case (b64_value a, b64_value b) of
        (Some p, Some q) \<Rightarrow>
          if rest = [] \<and> d = CHR ''='' then
            (if c = CHR ''='' then Some [char_of (p * 4 + q div 16)]
             else case b64_value c of
               None \<Rightarrow> None
             | Some r \<Rightarrow> Some [char_of (p * 4 + q div 16), char_of ((q mod 16) * 16 + r div 4)])
          else
            (case (b64_value c, b64_value d, unbase64 rest) of
               (Some r, Some s, Some bs) \<Rightarrow>
                 Some (char_of (p * 4 + q div 16) # char_of ((q mod 16) * 16 + r div 4)
                       # char_of ((r mod 4) * 64 + s) # bs)
             | _ \<Rightarrow> None)
      | _ \<Rightarrow> None)"
| "unbase64 [] = Some []"
| "unbase64 _ = None"

definition hex_value :: "char \<Rightarrow> nat option" where
  "hex_value c =
     (let n = (of_char c :: nat) in
      if 48 \<le> n \<and> n \<le> 57 then Some (n - 48)
      else if 97 \<le> n \<and> n \<le> 102 then Some (n - 87)
      else if 65 \<le> n \<and> n \<le> 70 then Some (n - 55)
      else None)"

definition utf8 :: "nat \<Rightarrow> string option" where
  \<comment> \<open>the UTF-8 bytes of a code point below \<open>0x10000\<close>\<close>
  "utf8 cp =
     (if cp < 128 then Some [char_of cp]
      else if cp < 2048 then Some [char_of (192 + cp div 64), char_of (128 + cp mod 64)]
      else if 55296 \<le> cp \<and> cp < 57344 then None
      else Some [char_of (224 + cp div 4096), char_of (128 + (cp div 64) mod 64),
                 char_of (128 + cp mod 64)])"

definition unescape :: "char \<Rightarrow> char option" where
  "unescape e =
     (if e = dquote \<or> e = bslash \<or> e = CHR ''/'' then Some e
      else if e = CHR ''b'' then Some (char_of (8 :: nat))
      else if e = CHR ''t'' then Some (char_of (9 :: nat))
      else if e = CHR ''n'' then Some (char_of (10 :: nat))
      else if e = CHR ''f'' then Some (char_of (12 :: nat))
      else if e = CHR ''r'' then Some (char_of (13 :: nat))
      else None)"

text \<open>
  \<open>parse_chars\<close> reads a JSON string after its opening quote and returns the text with what
  follows the closing quote.
\<close>

fun parse_chars :: "string \<Rightarrow> (string \<times> string) option" where
  "parse_chars [] = None"
| "parse_chars (c # cs) =
     (if c = dquote then Some ([], cs)
      else if c = bslash then
        (case cs of
           [] \<Rightarrow> None
         | e # cs1 \<Rightarrow>
             if e = CHR ''u'' then
               (case cs1 of
                  h1 # h2 # h3 # h4 # cs2 \<Rightarrow>
                    (case (hex_value h1, hex_value h2, hex_value h3, hex_value h4) of
                       (Some x1, Some x2, Some x3, Some x4) \<Rightarrow>
                         (case (utf8 (((x1 * 16 + x2) * 16 + x3) * 16 + x4), parse_chars cs2) of
                            (Some bytes, Some (s, r)) \<Rightarrow> Some (bytes @ s, r)
                          | _ \<Rightarrow> None)
                     | _ \<Rightarrow> None)
                | _ \<Rightarrow> None)
             else
               (case (unescape e, parse_chars cs1) of
                  (Some x, Some (s, r)) \<Rightarrow> Some (x # s, r)
                | _ \<Rightarrow> None))
      else if (of_char c :: nat) < 32 then None
      else (case parse_chars cs of None \<Rightarrow> None | Some (s, r) \<Rightarrow> Some (c # s, r)))"

text \<open>
  \<open>parse_members\<close> reads \<^verbatim>\<open>"key":"value"\<close> pairs separated by commas up to the closing
  brace, which must end the text.
\<close>

function parse_members :: "string \<Rightarrow> (string \<times> string) list option" where
  "parse_members s =
     (case s of
        [] \<Rightarrow> None
      | q # s1 \<Rightarrow>
          if q \<noteq> dquote then None
          else (case parse_chars s1 of
            None \<Rightarrow> None
          | Some (k, s2) \<Rightarrow>
              (case s2 of
                 colon # q2 # s3 \<Rightarrow>
                   if colon \<noteq> CHR '':'' \<or> q2 \<noteq> dquote then None
                   else (case parse_chars s3 of
                           None \<Rightarrow> None
                         | Some (v, s4) \<Rightarrow>
                             (case s4 of
                                [] \<Rightarrow> None
                              | x # s5 \<Rightarrow>
                                  if x = CHR ''}'' then (if s5 = [] then Some [(k, v)] else None)
                                  else if x = CHR '','' then
                                    (case parse_members s5 of
                                       None \<Rightarrow> None
                                     | Some kvs \<Rightarrow> Some ((k, v) # kvs))
                                  else None))
               | _ \<Rightarrow> None)))"
  by pat_completeness auto
termination
proof (relation "measure length")
  show "wf (measure length)" by simp
next
  have shorter: "parse_chars s = Some (t, r) \<Longrightarrow> length r < length s" for s t r
  proof (induction s arbitrary: t r rule: parse_chars.induct)
    case 1
    then show ?case by simp
  next
    case (2 c cs)
    then show ?case
      by (fastforce split: if_splits list.splits option.splits prod.splits)
  qed
  fix s :: string and q s1 x2 k s2 colon rest1 q2 s3 x2a v s4 x s5
  assume "s = q # s1" "parse_chars s1 = Some x2" "(k, s2) = x2" "s2 = colon # rest1"
    "rest1 = q2 # s3" "parse_chars s3 = Some x2a" "(v, s4) = x2a" "s4 = x # s5"
  then have "length s2 < length s1" "length s4 < length s3"
    using shorter by blast+
  with \<open>s = q # s1\<close> \<open>s2 = colon # rest1\<close> \<open>rest1 = q2 # s3\<close> \<open>s4 = x # s5\<close>
  show "(s5, s) \<in> measure length" by simp
qed

declare parse_members.simps [simp del]

definition JSON_parse :: "string \<Rightarrow> (string \<times> string) list option" where
  \<comment> \<open>the members of the object in the order of the text\<close>
  "JSON_parse s =
     (case s of
        [] \<Rightarrow> None
      | b # s1 \<Rightarrow> if b \<noteq> CHR ''{'' then None
                  else if s1 = ''}'' then Some []
                  else parse_members s1)"

definition decode_entries :: "string \<Rightarrow> (string \<times> string) list option" where
  "decode_entries blob = (case unbase64 blob of None \<Rightarrow> None | Some text \<Rightarrow> JSON_parse text)"

definition decodeSession :: "string \<Rightarrow> (string \<rightharpoonup> string) option" where
  \<comment> \<open>the object read back, as a mapping: of two members with one key the later wins\<close>
  "decodeSession blob = map_option (\<lambda>kvs. map_of (rev kvs)) (decode_entries blob)"

section \<open>The pairing endpoint and the lifecycle\<close>

subsection \<open>The request body\<close>

text \<open>
  \<^verbatim>\<open>req.body.phone\<close> after the JSON and urlencoded body parsers: any JSON value, or
  undefined when the key is missing. Arrays and objects are one constructor: they are
  truthy and have no \<^verbatim>\<open>replace\<close> method.
\<close>

datatype jsval = JUndefined | JNull | JBool bool | JNum int | JStr string | JObject

fun truthy :: "jsval \<Rightarrow> bool" where
  "truthy JUndefined = False"
| "truthy JNull = False"
| "truthy (JBool b) = b"
| "truthy (JNum n) = (n \<noteq> 0)"
| "truthy (JStr s) = (s \<noteq> [])"
| "truthy JObject = True"

definition strip_non_digits :: "string \<Rightarrow> string" where
  \<comment> \<open>\<^verbatim>\<open>phone.replace(/[^0-9]/g, '')\<close>\<close>
  "strip_non_digits s = filter is_digit s"

subsection \<open>The formatted pairing code\<close>

definition line_terminator :: "code_unit \<Rightarrow> bool" where
  \<comment> \<open>the code units that \<^verbatim>\<open>.\<close> does not match: line feed, carriage return,
      U+2028 and U+2029\<close>
  "line_terminator u = (u = 10 \<or> u = 13 \<or> u = 8232 \<or> u = 8233)"

fun match_chunks :: "utf16 \<Rightarrow> utf16 list" where
  \<comment> \<open>\<^verbatim>\<open>s.match(/.{1,4}/g)\<close>, with \<open>[]\<close> for null: scanning from the left, each match
      takes as many code units as it can, up to four, and stops before a line terminator\<close>
  "match_chunks [] = []"
| "match_chunks (c # cs) =
     (if line_terminator c then match_chunks cs
      else (let more = takeWhile (\<lambda>x. \<not> line_terminator x) (take 3 cs)
            in (c # more) # match_chunks (drop (length more) cs)))"

definition formattedCode :: "utf16 option \<Rightarrow> utf16 option" where
  \<comment> \<open>\<^verbatim>\<open>code?.match(/.{1,4}/g)?.join('-') || code\<close>; \<open>None\<close> is an undefined code\<close>
  "formattedCode code =
     (case code of
        None \<Rightarrow> None
      | Some s \<Rightarrow>
          (case match_chunks s of
             [] \<Rightarrow> Some s
           | g # gs \<Rightarrow>
               (let j = join (units_of_ascii ''-'') (g # gs) in if j = [] then Some s else Some j)))"

subsection \<open>cleanupSession of revision two\<close>

text \<open>
  Revision two calls \<^verbatim>\<open>session.sock.end()\<close> with no inner \<^verbatim>\<open>try\<close>: its exception
  reaches the outer \<^verbatim>\<open>catch\<close> after the directory is gone and before the record is deleted.
\<close>

definition cleanupSession2 :: "string \<Rightarrow> server \<Rightarrow> server" where
  "cleanupSession2 sessionId st =
     (let sessionPath = session_dir st sessionId in
      case (if existsSync (disk st) sessionPath
            then removeSync (pinned st) (disk st) sessionPath
            else Inr (disk st)) of
        Inl e \<Rightarrow> st
      | Inr d \<Rightarrow>
          (case sessions st sessionId of
             None \<Rightarrow> st\<lparr>disk := d, sessions := (sessions st)(sessionId := None)\<rparr>
           | Some s \<Rightarrow>
               (case sock_end (socks st) (sock s) of
                  Inl e \<Rightarrow> st\<lparr>disk := d\<rparr>
                | Inr ss \<Rightarrow>
                    st\<lparr>disk := d, socks := ss, sessions := (sessions st)(sessionId := None)\<rparr>)))"

subsection \<open>POST /api/pair\<close>

text \<open>
  What the handler obtains from outside: the identifier drawn by \<^verbatim>\<open>generateId\<close>, the
  clock, the outcome of building the socket (\<^verbatim>\<open>useMultiFileAuthState\<close>,
  \<^verbatim>\<open>fetchLatestBaileysVersion\<close>, \<^verbatim>\<open>makeWASocket\<close>) and the outcome of
  \<^verbatim>\<open>requestPairingCode\<close>.
\<close>

record env =
  new_id :: string
  now :: nat
  provision :: "exn + nat"
  pairing :: "exn + utf16 option"

text \<open>
  The result of a handler is \<open>Inr\<close> the response sent, or \<open>Inl\<close> the exception with which
  the asynchronous handler rejected, having sent nothing.
\<close>

definition provision_and_pair ::
  "(string \<Rightarrow> server \<Rightarrow> server) \<Rightarrow> env \<Rightarrow> string \<Rightarrow> server \<Rightarrow> (exn + response) \<times> server" where
  \<comment> \<open>from \<^verbatim>\<open>generateId()\<close> to the end of the handler; \<open>cleanup\<close> is the revision's
      \<^verbatim>\<open>cleanupSession\<close>\<close>
  "provision_and_pair cleanup ev cleanPhone st =
     (let sessionId = new_id ev; sessionPath = session_dir st sessionId in
      case ensureDirSync (disk st) sessionPath of
        Inl e \<Rightarrow> (Inr \<lparr>http = 500, payload = Failure (ServerError e)\<rparr>, cleanup sessionId st)
      | Inr d \<Rightarrow>
          (let st1 = st\<lparr>disk := d\<rparr> in
           case provision ev of
             Inl e \<Rightarrow>
               (Inr \<lparr>http = 500, payload = Failure (ServerError e)\<rparr>, cleanup sessionId st1)
           | Inr sk \<Rightarrow>
               (let st2 = st1\<lparr>sessions := (sessions st1)(sessionId \<mapsto>
                            \<lparr>sock = sk, phone = cleanPhone, status = Pending,
                             sessionString = None, createdAt = now ev\<rparr>)\<rparr> in
                case pairing ev of
                  Inl e \<Rightarrow>
                    (Inr \<lparr>http = 500, payload = Failure (PairingFailed e)\<rparr>,
                     cleanup sessionId st2)
                | Inr code \<Rightarrow>
                    (Inr \<lparr>http = 200, payload = PairOk (formattedCode code) sessionId\<rparr>,
                     st2))))"

definition pair_with ::
  "nat \<Rightarrow> (string \<Rightarrow> server \<Rightarrow> server) \<Rightarrow> env \<Rightarrow> jsval \<Rightarrow> server
     \<Rightarrow> (exn + response) \<times> server" where
  "pair_with min_digits cleanup ev phone_field st =
     (if \<not> truthy phone_field
      then (Inr \<lparr>http = 400, payload = Failure PhoneRequired\<rparr>, st)
      else case phone_field of
        JStr s \<Rightarrow>
          (let cleanPhone = strip_non_digits s in
           if length cleanPhone < min_digits
           then (Inr \<lparr>http = 400, payload = Failure InvalidPhone\<rparr>, st)
           else provision_and_pair cleanup ev cleanPhone st)
      | _ \<Rightarrow> (Inl TypeError, st))"

definition pair :: "env \<Rightarrow> jsval \<Rightarrow> server \<Rightarrow> (exn + response) \<times> server" where
  \<comment> \<open>revisions one and three: \<^verbatim>\<open>cleanPhone.length < 7\<close>\<close>
  "pair = pair_with 7 cleanupSession"

definition pair2 :: "env \<Rightarrow> jsval \<Rightarrow> server \<Rightarrow> (exn + response) \<times> server" where
  \<comment> \<open>revision two: \<^verbatim>\<open>cleanPhone.length < 10\<close>\<close>
  "pair2 = pair_with 10 cleanupSession2"

subsection \<open>Notifications and timers\<close>

definition loggedOut :: nat where
  \<comment> \<open>\<^verbatim>\<open>DisconnectReason.loggedOut\<close> of the messaging library\<close>
  "loggedOut = 401"

definition open_encode :: "string \<Rightarrow> server \<Rightarrow> server" where
  \<comment> \<open>the \<^verbatim>\<open>connection === 'open'\<close> branch after its settling delay\<close>
  "open_encode sessionId st =
     (let sessionString' = encodeSession (disk st) (session_dir st sessionId) in
      case sessions st sessionId of
        None \<Rightarrow> st
      | Some s \<Rightarrow>
          st\<lparr>sessions := (sessions st)(sessionId \<mapsto>
                s\<lparr>status := Connected, sessionString := sessionString'\<rparr>)\<rparr>)"

definition connection_open :: "string \<Rightarrow> string \<Rightarrow> server \<Rightarrow> server" where
  \<comment> \<open>the whole branch: \<^verbatim>\<open>saveCreds()\<close> writes \<^verbatim>\<open>creds.json\<close>, with \<open>creds\<close> the text
      written; when the write fails the handler rejects and nothing more happens\<close>
  "connection_open sessionId creds st =
     (case writeFile (disk st) (child (session_dir st sessionId) ''creds.json'') creds of
        Inl e \<Rightarrow> st
      | Inr d \<Rightarrow> open_encode sessionId (st\<lparr>disk := d\<rparr>))"

definition connection_close :: "string \<Rightarrow> nat option \<Rightarrow> server \<Rightarrow> server" where
  \<comment> \<open>the \<^verbatim>\<open>connection === 'close'\<close> branch; \<open>boom\<close> is the status code of a Boom error\<close>
  "connection_close sessionId boom st =
     (let code = (case boom of Some c \<Rightarrow> c | None \<Rightarrow> 500) in
      if code = loggedOut then cleanupSession sessionId st else st)"

definition watchdog :: "string \<Rightarrow> server \<Rightarrow> server" where
  \<comment> \<open>the five-minute timer\<close>
  "watchdog sessionId st =
     (case sessions st sessionId of
        None \<Rightarrow> st
      | Some s \<Rightarrow> if status s = Pending then cleanupSession sessionId st else st)"

definition library_write :: "string \<Rightarrow> string \<Rightarrow> string \<Rightarrow> server \<Rightarrow> server" where
  \<comment> \<open>the library persists one credential file of a session, as on \<^verbatim>\<open>creds.update\<close>\<close>
  "library_write sessionId name text st =
     (case writeFile (disk st) (child (session_dir st sessionId) name) text of
        Inl e \<Rightarrow> st
      | Inr d \<Rightarrow> st\<lparr>disk := d\<rparr>)"

text \<open>
  Everything that changes the state, as events. \<open>EncodeAfterDelay\<close> is the second half of
  the open branch on its own, for the runs in which other events fall into its delay. An
  event may name any identifier at any moment: these are more runs than the server has,
  where a notification or a timer exists only for a session that was paired.
\<close>

datatype event =
    PairRequest env jsval
  | ConnectionOpen string string
  | EncodeAfterDelay string
  | ConnectionClose string "nat option"
  | Watchdog string
  | Expiry string
  | LibraryWrite string string string

fun step :: "server \<Rightarrow> event \<Rightarrow> server" where
  "step st (PairRequest ev phone_field) = snd (pair ev phone_field st)"
| "step st (ConnectionOpen sid creds) = connection_open sid creds st"
| "step st (EncodeAfterDelay sid) = open_encode sid st"
| "step st (ConnectionClose sid boom) = connection_close sid boom st"
| "step st (Watchdog sid) = watchdog sid st"
| "step st (Expiry sid) = cleanupSession sid st"
| "step st (LibraryWrite sid name text) = library_write sid name text st"

definition boot :: "server \<Rightarrow> server" where
  \<comment> \<open>the process starts with an empty \<^verbatim>\<open>sessions\<close> map, whatever is on the disk\<close>
  "boot st = st\<lparr>sessions := Map.empty\<rparr>"

definition run :: "server \<Rightarrow> event list \<Rightarrow> server" where
  "run st evs = foldl step (boot st) evs"

subsection \<open>The encoding step of a record\<close>

text \<open>
  What has happened to the record that is live under an identifier: it was made by
  \<^verbatim>\<open>sessions.set\<close> and \<^verbatim>\<open>encodeSession\<close> has not been called for it since
  (\<open>Fresh\<close>), or the latest call of \<^verbatim>\<open>encodeSession\<close> for it returned the value given
  (\<open>Encoded\<close>, with \<open>None\<close> for null). This is read off the events and the outcomes of
  the calls, never off the fields of the record.
\<close>

datatype mark = Fresh | Encoded "string option"

definition sets_record :: "env \<Rightarrow> jsval \<Rightarrow> server \<Rightarrow> bool" where
  \<comment> \<open>the handler of \<^verbatim>\<open>POST /api/pair\<close> gets as far as \<^verbatim>\<open>sessions.set\<close>: the phone is
      valid, the folder and the socket are made\<close>
  "sets_record ev phone_field st =
     (case phone_field of
        JStr s \<Rightarrow>
          7 \<le> length (strip_non_digits s) \<and>
          (case ensureDirSync (disk st) (session_dir st (new_id ev)) of
             Inl e \<Rightarrow> False
           | Inr d \<Rightarrow> (case provision ev of Inl e \<Rightarrow> False | Inr sk \<Rightarrow> True))
      | _ \<Rightarrow> False)"

fun observe :: "server \<Rightarrow> event \<Rightarrow> string \<Rightarrow> mark option" where
  "observe st (PairRequest ev phone_field) sid =
     (if sid = new_id ev \<and> sets_record ev phone_field st then Some Fresh else None)"
| "observe st (ConnectionOpen x creds) sid =
     (if x = sid \<and> sessions st sid \<noteq> None
      then (case writeFile (disk st) (child (session_dir st sid) ''creds.json'') creds of
              Inl e \<Rightarrow> None
            | Inr d \<Rightarrow> Some (Encoded (encodeSession d (session_dir st sid))))
      else None)"
| "observe st (EncodeAfterDelay x) sid =
     (if x = sid \<and> sessions st sid \<noteq> None
      then Some (Encoded (encodeSession (disk st) (session_dir st sid)))
      else None)"
| "observe st (ConnectionClose x boom) sid = None"
| "observe st (Watchdog x) sid = None"
| "observe st (Expiry x) sid = None"
| "observe st (LibraryWrite x name content) sid = None"

definition track ::
  "server \<times> (string \<Rightarrow> mark option) \<Rightarrow> event \<Rightarrow> server \<times> (string \<Rightarrow> mark option)" where
  "track sg e =
     (step (fst sg) e,
      \<lambda>sid. case observe (fst sg) e sid of None \<Rightarrow> snd sg sid | Some m \<Rightarrow> Some m)"

definition marks :: "server \<Rightarrow> event list \<Rightarrow> string \<Rightarrow> mark option" where
  \<comment> \<open>the mark of each identifier after a run\<close>
  "marks st evs = snd (foldl track (boot st, \<lambda>sid. None) evs)"

section \<open>Properties of runs, and sample states\<close>

text \<open>
  The partition of a list, from the left, into groups of four with a shorter last group:
  a partition into groups of at most four.
\<close>

fun groups4 :: "'a list \<Rightarrow> 'a list list" where
  "groups4 [] = []"
| "groups4 (x # xs) = (x # take 3 xs) # groups4 (drop 3 xs)"

text \<open>
  What holds of every record of every state the server reaches: a pending record has no
  session string, and a session string is never the empty string.
\<close>

definition record_ok :: "session \<Rightarrow> bool" where
  "record_ok r =
     ((status r = Pending \<longrightarrow> sessionString r = None) \<and> sessionString r \<noteq> Some [])"

definition store_ok :: "server \<Rightarrow> bool" where
  "store_ok st = (\<forall>sid r. sessions st sid = Some r \<longrightarrow> record_ok r)"

text \<open>
  The fields of every live record are what its mark says: pending with null when fresh,
  connected with the value the latest encoding returned otherwise.
\<close>

definition agrees :: "server \<Rightarrow> (string \<Rightarrow> mark option) \<Rightarrow> bool" where
  "agrees st g =
     (\<forall>sid r. sessions st sid = Some r \<longrightarrow>
        (case g sid of
           None \<Rightarrow> False
         | Some Fresh \<Rightarrow> status r = Pending \<and> sessionString r = None
         | Some (Encoded res) \<Rightarrow> status r = Connected \<and> sessionString r = res))"

text \<open>A server that has just started, and one request.\<close>

definition server0 :: server where
  "server0 =
     \<lparr>dirname = [''app''], sessions = Map.empty,
      disk = [([''app''], Folder), ([''app'', ''sessions''], Folder)],
      socks = (\<lambda>h. Live), pinned = {}\<rparr>"

definition env0 :: env where
  "env0 =
     \<lparr>new_id = ''ALMEER_A'', now = 0, provision = Inr 1,
      pairing = Inr (Some (units_of_ascii ''ABCD1234''))\<rparr>"

text \<open>A server with one pending session whose folder holds its credentials.\<close>

definition dirA :: path where
  "dirA = [''app'', ''sessions'', ''ALMEER_A'']"

definition server1 :: server where
  "server1 =
     \<lparr>dirname = [''app''],
      sessions = [''ALMEER_A'' \<mapsto>
        \<lparr>sock = 1, phone = ''1234567'', status = Pending, sessionString = None,
         createdAt = 0\<rparr>],
      disk = [([''app''], Folder), ([''app'', ''sessions''], Folder), (dirA, Folder),
              (dirA @ [''creds.json''], File ''{}'')],
      socks = (\<lambda>h. Live), pinned = {}\<rparr>"

text \<open>The same session, connected and holding its string.\<close>

definition server2 :: server where
  "server2 =
     \<lparr>dirname = [''app''],
      sessions = [''ALMEER_A'' \<mapsto>
        \<lparr>sock = 1, phone = ''1234567'', status = Connected,
         sessionString = Some ''eyJjcmVkcy5qc29uIjoie30ifQ=='', createdAt = 0\<rparr>],
      disk = [([''app''], Folder), ([''app'', ''sessions''], Folder)],
      socks = (\<lambda>h. Live), pinned = {}\<rparr>"

text \<open>
  Session folders: without the marker, with the marker, with an unreadable file, with a
  dangling link, with a subfolder, with a file named \<^verbatim>\<open>__proto__\<close>.
\<close>

definition disk_ab :: disk where
  "disk_ab = [(dirA, Folder), (dirA @ [''a''], File ''x''), (dirA @ [''b''], File ''y'')]"

definition marker_a_b :: "string \<Rightarrow> string \<Rightarrow> string \<Rightarrow> disk" where
  \<comment> \<open>the folder with the marker and the files \<open>a\<close> and \<open>b\<close>, for any three texts\<close>
  "marker_a_b creds x y =
     [(dirA, Folder), (dirA @ [''creds.json''], File creds),
      (dirA @ [''a''], File x), (dirA @ [''b''], File y)]"

definition disk_denied :: disk where
  "disk_denied = [(dirA, Folder), (dirA @ [''creds.json''], File ''{}''),
                  (dirA @ [''key''], Denied)]"

definition disk_dangling :: disk where
  "disk_dangling = [(dirA, Folder), (dirA @ [''creds.json''], File ''{}''),
                    (dirA @ [''link''], Dangling)]"

definition disk_sub :: disk where
  "disk_sub = [(dirA, Folder), (dirA @ [''creds.json''], File ''{}''),
               (dirA @ [''keys''], Folder), (dirA @ [''keys'', ''k1''], File ''z'')]"

definition disk_proto :: disk where
  "disk_proto = [(dirA, Folder), (dirA @ [''creds.json''], File ''{}''),
                 (dirA @ [''__proto__''], File ''x'')]"

section \<open>The read-only endpoints\<close>

text \<open>
  Claim C6. For every identifier, \<^verbatim>\<open>GET /api/status/:sessionId\<close> answers HTTP 200 with
  a body \<^verbatim>\<open>{status}\<close>: the value is \<^verbatim>\<open>not_found\<close> when the identifier is not in the
  store, \<^verbatim>\<open>pending\<close> for a pending record and \<^verbatim>\<open>connected\<close> for a connected one. These
  are three of the four listed values; the code has no closed status, so the fourth is
  never reported.
\<close>

theorem get_status_values:
  "(sessions st sessionId = None \<longrightarrow>
      get_status st sessionId = \<lparr>http = 200, payload = StatusBody ''not_found''\<rparr>) \<and>
   (sessions st sessionId = Some s \<and> status s = Pending \<longrightarrow>
      get_status st sessionId = \<lparr>http = 200, payload = StatusBody ''pending''\<rparr>) \<and>
   (sessions st sessionId = Some s \<and> status s = Connected \<longrightarrow>
      get_status st sessionId = \<lparr>http = 200, payload = StatusBody ''connected''\<rparr>) \<and>
   (\<exists>v. get_status st sessionId = \<lparr>http = 200, payload = StatusBody v\<rparr> \<and>
        v \<in> {''not_found'', ''pending'', ''connected'', ''closed''} \<and>
        v \<noteq> ''closed'' \<and>
        (v = ''not_found'' \<longleftrightarrow> sessions st sessionId = None))"
proof (cases "sessions st sessionId")
  case None
  then show ?thesis by (simp add: get_status_def)
next
  case (Some r)
  then show ?thesis by (cases "status r") (auto simp add: get_status_def)
qed

theorem get_status_values_witness:
  "get_status server1 ''ALMEER_A'' = \<lparr>http = 200, payload = StatusBody ''pending''\<rparr> \<and>
   get_status server2 ''ALMEER_A'' = \<lparr>http = 200, payload = StatusBody ''connected''\<rparr> \<and>
   get_status server1 ''ALMEER_B'' = \<lparr>http = 200, payload = StatusBody ''not_found''\<rparr>"
  using
    get_status_values [of server1 "''ALMEER_A''"
      "\<lparr>sock = 1, phone = ''1234567'', status = Pending, sessionString = None,
        createdAt = 0\<rparr>"]
    get_status_values [of server2 "''ALMEER_A''"
      "\<lparr>sock = 1, phone = ''1234567'', status = Connected,
        sessionString = Some ''eyJjcmVkcy5qc29uIjoie30ifQ=='', createdAt = 0\<rparr>"]
    get_status_values [of server1 "''ALMEER_B''"]
  by (simp add: server1_def server2_def)

text \<open>
  Claim C10. \<^verbatim>\<open>GET /api/status/:sessionId\<close> always answers HTTP 200, and for an
  identifier that is not in the store (never created, or removed) its body is
  \<^verbatim>\<open>{status: "not_found"}\<close>, whereas \<^verbatim>\<open>GET /api/session/:sessionId\<close> answers the same
  identifier with HTTP 404.
\<close>

theorem status_unknown_id_is_200:
  "http (get_status st sessionId) = 200 \<and>
   (sessions st sessionId = None \<longrightarrow>
      get_status st sessionId = \<lparr>http = 200, payload = StatusBody ''not_found''\<rparr> \<and>
      get_session st sessionId = \<lparr>http = 404, payload = Failure SessionNotFound\<rparr>)"
  by (simp add: get_status_def get_session_def split: option.splits)

theorem status_unknown_id_is_200_witness:
  "sessions server0 ''ALMEER_X'' = None \<and>
   get_status server0 ''ALMEER_X'' = \<lparr>http = 200, payload = StatusBody ''not_found''\<rparr> \<and>
   get_session server0 ''ALMEER_X'' = \<lparr>http = 404, payload = Failure SessionNotFound\<rparr> \<and>
   sessions (cleanupSession ''ALMEER_A'' server1) ''ALMEER_A'' = None"
  using status_unknown_id_is_200 [of server0 "''ALMEER_X''"]
  by (simp add: server0_def server1_def cleanupSession_def cleanupSession_result_def
      cleanup_body_def Let_def removeSync_def)

section \<open>Session removal\<close>

lemma lookup_removed:
  "p \<noteq> [] \<Longrightarrow> disk_lookup (filter (\<lambda>(q, k). \<not> (take (length p) q = p)) d) p = None"
  by (simp add: disk_lookup_def map_of_eq_None_iff image_iff)

lemma cleanup_body_unfold:
  "cleanup_body sid st =
     (if existsSync (disk st) (session_dir st sid) \<and> session_dir st sid \<in> pinned st
      then Inl EBUSY
      else Inr (st\<lparr>disk :=
                      (if existsSync (disk st) (session_dir st sid)
                       then filter (\<lambda>(q, k). \<not> (take (length (session_dir st sid)) q
                                                  = session_dir st sid)) (disk st)
                       else disk st),
                   socks :=
                      (case sessions st sid of
                         None \<Rightarrow> socks st
                       | Some s \<Rightarrow> (case sock_end (socks st) (sock s) of
                                     Inl e \<Rightarrow> socks st
                                   | Inr ss' \<Rightarrow> ss')),
                   sessions := (sessions st)(sid := None)\<rparr>))"
  by (simp add: cleanup_body_def Let_def removeSync_def)

text \<open>
  Claim C4. For every identifier, calling \<^verbatim>\<open>cleanupSession\<close> a second time leaves the
  whole state (the session map, the sockets and the disk) as the first call left it, and
  the second call returns normally.
\<close>

theorem cleanupSession_idempotent:
  "cleanupSession sessionId (cleanupSession sessionId st) = cleanupSession sessionId st \<and>
   cleanupSession_result sessionId (cleanupSession sessionId st)
     = Inr (cleanupSession sessionId st)"
proof -
  let ?p = "session_dir st sessionId"
  show ?thesis
  proof (cases "existsSync (disk st) ?p \<and> ?p \<in> pinned st")
    case True
    then show ?thesis
      by (simp add: cleanupSession_def cleanupSession_result_def cleanup_body_unfold)
  next
    case False
    show ?thesis
    proof (cases "?p = []")
      case True
      with False show ?thesis
        by (simp add: cleanupSession_def cleanupSession_result_def cleanup_body_unfold
            session_dir_def existsSync_def disk_lookup_def)
    next
      case nonempty: False
      with False show ?thesis
        by (auto simp add: cleanupSession_def cleanupSession_result_def cleanup_body_unfold
            session_dir_def existsSync_def lookup_removed)
    qed
  qed
qed

lemma cleanup_server1:
  "cleanupSession ''ALMEER_A'' server1 =
     server1\<lparr>disk := [([''app''], Folder), ([''app'', ''sessions''], Folder)],
             socks := (socks server1)(1 := Ended), sessions := Map.empty\<rparr>"
  by (simp add: cleanupSession_def cleanupSession_result_def cleanup_body_unfold server1_def
      dirA_def session_dir_def path_join_def norm_step_def existsSync_def disk_lookup_def
      sock_end_def)

theorem cleanupSession_idempotent_witness:
  "cleanupSession ''ALMEER_A'' (cleanupSession ''ALMEER_A'' server1)
     = server1\<lparr>disk := [([''app''], Folder), ([''app'', ''sessions''], Folder)],
               socks := (socks server1)(1 := Ended), sessions := Map.empty\<rparr> \<and>
   cleanupSession_result ''ALMEER_A'' (cleanupSession ''ALMEER_A'' server1)
     = Inr (server1\<lparr>disk := [([''app''], Folder), ([''app'', ''sessions''], Folder)],
                    socks := (socks server1)(1 := Ended), sessions := Map.empty\<rparr>)"
  using cleanupSession_idempotent [of "''ALMEER_A''" server1]
  by (simp add: cleanup_server1)

section \<open>Validation of the phone number\<close>

text \<open>
  What the validation does. When the phone field is a string with fewer than seven digits,
  or is missing or otherwise falsy, \<^verbatim>\<open>POST /api/pair\<close> answers HTTP 400 with
  \<^verbatim>\<open>success: false\<close> and returns the state it was given: no record and no folder is
  made. This holds of revision one (threshold 7) and of revision two (threshold 10).
\<close>

lemma pair_rejects_short_phone:
  "(length (strip_non_digits s) < 7 \<longrightarrow>
      pair ev (JStr s) st =
        (Inr \<lparr>http = 400,
              payload = Failure (if s = [] then PhoneRequired else InvalidPhone)\<rparr>, st) \<and>
      pair2 ev (JStr s) st =
        (Inr \<lparr>http = 400,
              payload = Failure (if s = [] then PhoneRequired else InvalidPhone)\<rparr>, st)) \<and>
   (\<not> truthy v \<longrightarrow>
      pair ev v st = (Inr \<lparr>http = 400, payload = Failure PhoneRequired\<rparr>, st) \<and>
      pair2 ev v st = (Inr \<lparr>http = 400, payload = Failure PhoneRequired\<rparr>, st))"
  by (simp add: pair_def pair2_def pair_with_def Let_def)

lemma pair_rejects_short_phone_example:
  "length (strip_non_digits ''+1 23-45'') < 7 \<and>
   pair env0 (JStr ''+1 23-45'') server0
     = (Inr \<lparr>http = 400, payload = Failure InvalidPhone\<rparr>, server0) \<and>
   pair2 env0 (JStr ''+1 23-45'') server0
     = (Inr \<lparr>http = 400, payload = Failure InvalidPhone\<rparr>, server0) \<and>
   pair env0 JUndefined server0
     = (Inr \<lparr>http = 400, payload = Failure PhoneRequired\<rparr>, server0) \<and>
   pair2 env0 JNull server0
     = (Inr \<lparr>http = 400, payload = Failure PhoneRequired\<rparr>, server0)"
  using pair_rejects_short_phone [of "''+1 23-45''" env0 server0 JUndefined]
    pair_rejects_short_phone [of "''+1 23-45''" env0 server0 JNull]
  by (simp add: strip_non_digits_def is_digit_def)

text \<open>
  The body parsers hand over any JSON value. A truthy value that is not a string (a number,
  \<^verbatim>\<open>true\<close>, an array, an object) has no \<^verbatim>\<open>replace\<close> method: the call throws before
  the \<^verbatim>\<open>try\<close>, the handler rejects, nothing is sent and the state is as it was.
\<close>

lemma pair_phone_not_a_string:
  "truthy v \<Longrightarrow> (\<forall>s. v \<noteq> JStr s) \<Longrightarrow>
   pair ev v st = (Inl TypeError, st) \<and> pair2 ev v st = (Inl TypeError, st)"
  by (cases v) (simp_all add: pair_def pair2_def pair_with_def)

text \<open>
  Claim C1, at the input where the code leaves it. The body \<^verbatim>\<open>{"phone": 12345}\<close> has a
  phone of five digits, fewer than seven. Neither revision answers HTTP 400: the handler
  rejects with a \<^verbatim>\<open>TypeError\<close> and sends no response. No session is created, as the
  claim says. A falsy phone of the same kind, the number zero, is answered with HTTP 400 by
  the test before.
\<close>

theorem pair_number_phone_no_response:
  "pair env0 (JNum 12345) server0 = (Inl TypeError, server0) \<and>
   pair2 env0 (JNum 12345) server0 = (Inl TypeError, server0) \<and>
   pair env0 (JNum 0) server0
     = (Inr \<lparr>http = 400, payload = Failure PhoneRequired\<rparr>, server0)"
  by (simp add: pair_def pair2_def pair_with_def)

section \<open>The encoder never throws\<close>

lemma collect_files_stat_fails:
  "n \<in> set names \<Longrightarrow> statSync_isFile d (child p n) = Inl e \<Longrightarrow>
   \<exists>e'. collect_files d p names files = Inl e'"
proof (induction names arbitrary: files)
  case Nil
  then show ?case by simp
next
  case (Cons a names)
  then show ?case
    by (cases "a = n") (auto simp add: Let_def split: sum.splits)
qed

lemma collect_files_read_fails:
  "n \<in> set names \<Longrightarrow> statSync_isFile d (child p n) = Inr True \<Longrightarrow>
   readFileSync d (child p n) = Inl e \<Longrightarrow>
   \<exists>e'. collect_files d p names files = Inl e'"
proof (induction names arbitrary: files)
  case Nil
  then show ?case by simp
next
  case (Cons a names)
  then show ?case
    by (cases "a = n") (auto simp add: Let_def split: sum.splits)
qed

lemma collect_files2_read_fails:
  "n \<in> set names \<Longrightarrow> readFileSync d (child p n) = Inl e \<Longrightarrow>
   \<exists>e'. collect_files2 d p names files = Inl e'"
proof (induction names arbitrary: files)
  case Nil
  then show ?case by simp
next
  case (Cons a names)
  then show ?case
    by (cases "a = n") (auto simp add: Let_def split: sum.splits)
qed

text \<open>
  Claim C2. For every disk and path, \<^verbatim>\<open>encodeSession\<close> returns and never throws, in
  revision one and in revision two. It returns null when \<^verbatim>\<open>creds.json\<close> is absent, when
  the folder cannot be listed, when \<^verbatim>\<open>statSync\<close> fails on a listed entry and when
  \<^verbatim>\<open>readFileSync\<close> fails on a listed entry that is read.
\<close>

theorem encodeSession_never_throws:
  "encodeSession_result d p = Inr (encodeSession d p) \<and>
   encodeSession_result2 d p = Inr (encodeSession2 d p) \<and>
   (\<not> existsSync d (child p ''creds.json'') \<longrightarrow>
      encodeSession d p = None \<and> encodeSession2 d p = None) \<and>
   (readdirSync d p = Inl e \<longrightarrow> encodeSession d p = None \<and> encodeSession2 d p = None) \<and>
   (readdirSync d p = Inr names \<and> n \<in> set names \<and> statSync_isFile d (child p n) = Inl e
      \<longrightarrow> encodeSession d p = None) \<and>
   (readdirSync d p = Inr names \<and> n \<in> set names \<and>
    statSync_isFile d (child p n) = Inr True \<and> readFileSync d (child p n) = Inl e
      \<longrightarrow> encodeSession d p = None) \<and>
   (readdirSync d p = Inr names \<and> n \<in> set names \<and> readFileSync d (child p n) = Inl e
      \<longrightarrow> encodeSession2 d p = None)"
proof -
  have r1: "encodeSession_result d p = Inr (encodeSession d p)"
    by (simp add: encodeSession_def encodeSession_result_def split: sum.splits)
  have r2: "encodeSession_result2 d p = Inr (encodeSession2 d p)"
    by (simp add: encodeSession2_def encodeSession_result2_def split: sum.splits)
  have absent: "encodeSession d p = None \<and> encodeSession2 d p = None"
    if "\<not> existsSync d (child p ''creds.json'')"
    using that
    by (simp add: encodeSession_def encodeSession_result_def encode_body_def encode_files_def
        encodeSession2_def encodeSession_result2_def encode_body2_def encode_files2_def)
  have listing: "encodeSession d p = None \<and> encodeSession2 d p = None"
    if "readdirSync d p = Inl e"
    using that
    by (simp add: encodeSession_def encodeSession_result_def encode_body_def encode_files_def
        encodeSession2_def encodeSession_result2_def encode_body2_def encode_files2_def)
  have stat: "encodeSession d p = None"
    if "readdirSync d p = Inr names" "n \<in> set names" "statSync_isFile d (child p n) = Inl e"
    using that collect_files_stat_fails [of n names d p e "[]"]
    by (auto simp add: encodeSession_def encodeSession_result_def encode_body_def
        encode_files_def)
  have read: "encodeSession d p = None"
    if "readdirSync d p = Inr names" "n \<in> set names"
       "statSync_isFile d (child p n) = Inr True" "readFileSync d (child p n) = Inl e"
    using that collect_files_read_fails [of n names d p e "[]"]
    by (auto simp add: encodeSession_def encodeSession_result_def encode_body_def
        encode_files_def)
  have read2: "encodeSession2 d p = None"
    if "readdirSync d p = Inr names" "n \<in> set names" "readFileSync d (child p n) = Inl e"
    using that collect_files2_read_fails [of n names d p e "[]"]
    by (auto simp add: encodeSession2_def encodeSession_result2_def encode_body2_def
        encode_files2_def)
  from r1 r2 absent listing stat read read2 show ?thesis by blast
qed

lemma denied_facts:
  "readdirSync disk_denied dirA = Inr [''creds.json'', ''key''] \<and>
   statSync_isFile disk_denied (child dirA ''key'') = Inr True \<and>
   readFileSync disk_denied (child dirA ''key'') = Inl EACCES"
  by (simp add: readdirSync_def statSync_isFile_def readFileSync_def
      disk_lookup_def disk_denied_def dirA_def child_def)

lemma dangling_facts:
  "readdirSync disk_dangling dirA = Inr [''creds.json'', ''link''] \<and>
   statSync_isFile disk_dangling (child dirA ''link'') = Inl ENOENT"
  by (simp add: readdirSync_def statSync_isFile_def
      disk_lookup_def disk_dangling_def dirA_def child_def)

lemma ab_facts:
  "\<not> existsSync disk_ab (child dirA ''creds.json'') \<and>
   readdirSync disk_ab [''elsewhere''] = Inl ENOENT"
  by (simp add: existsSync_def readdirSync_def disk_lookup_def disk_ab_def dirA_def child_def)

theorem encodeSession_never_throws_witness:
  "readdirSync disk_denied dirA = Inr [''creds.json'', ''key''] \<and>
   statSync_isFile disk_denied (child dirA ''key'') = Inr True \<and>
   readFileSync disk_denied (child dirA ''key'') = Inl EACCES \<and>
   encodeSession disk_denied dirA = None \<and>
   encodeSession2 disk_denied dirA = None \<and>
   encodeSession_result disk_denied dirA = Inr None \<and>
   encodeSession_result2 disk_denied dirA = Inr None \<and>
   readdirSync disk_dangling dirA = Inr [''creds.json'', ''link''] \<and>
   statSync_isFile disk_dangling (child dirA ''link'') = Inl ENOENT \<and>
   encodeSession disk_dangling dirA = None \<and>
   \<not> existsSync disk_ab (child dirA ''creds.json'') \<and>
   encodeSession disk_ab dirA = None \<and>
   readdirSync disk_ab [''elsewhere''] = Inl ENOENT \<and>
   encodeSession disk_ab [''elsewhere''] = None"
proof -
  have key: "''key'' \<in> set [''creds.json'', ''key'']"
    and link: "''link'' \<in> set [''creds.json'', ''link'']"
    by simp_all
  show ?thesis
    using denied_facts dangling_facts ab_facts key link
      encodeSession_never_throws [of disk_denied dirA EACCES "[''creds.json'', ''key'']" "''key''"]
      encodeSession_never_throws [of disk_dangling dirA ENOENT "[''creds.json'', ''link'']"
        "''link''"]
      encodeSession_never_throws [of disk_ab dirA]
      encodeSession_never_throws [of disk_ab "[''elsewhere'']" ENOENT]
    by metis
qed

section \<open>The lifecycle of a record\<close>

lemma base64_nonempty: "s \<noteq> [] \<Longrightarrow> base64 s \<noteq> []"
  by (cases s rule: base64.cases) (simp_all add: Let_def)

lemma encodeSession_nonempty: "encodeSession d p \<noteq> Some []"
  by (auto simp add: encodeSession_def encodeSession_result_def encode_body_def
      JSON_stringify_def base64_nonempty split: sum.splits option.splits)

lemma sessions_cleanupSession:
  "sessions (cleanupSession sid st) = sessions st \<or>
   sessions (cleanupSession sid st) = (sessions st)(sid := None)"
  by (simp add: cleanupSession_def cleanupSession_result_def cleanup_body_def Let_def
      split: sum.splits if_splits)

lemma store_ok_cleanupSession: "store_ok st \<Longrightarrow> store_ok (cleanupSession sid st)"
  using sessions_cleanupSession [of sid st] by (auto simp add: store_ok_def split: if_splits)

lemma store_ok_disk: "store_ok (st\<lparr>disk := d\<rparr>) = store_ok st"
  by (simp add: store_ok_def)

lemma store_ok_pair: "store_ok st \<Longrightarrow> store_ok (snd (pair ev ph st))"
proof -
  assume ok: "store_ok st"
  have new: "store_ok (st\<lparr>disk := d, sessions := (sessions st)(k \<mapsto>
      \<lparr>sock = sk, phone = c, status = Pending, sessionString = None, createdAt = t\<rparr>)\<rparr>)"
    for d k sk c t
    using ok by (simp add: store_ok_def record_ok_def)
  show ?thesis
    using ok new
    by (auto simp add: pair_def pair_with_def provision_and_pair_def Let_def
        store_ok_cleanupSession store_ok_disk split: jsval.splits sum.splits)
qed

lemma store_ok_open_encode: "store_ok st \<Longrightarrow> store_ok (open_encode sid st)"
  using encodeSession_nonempty
  by (auto simp add: open_encode_def Let_def store_ok_def record_ok_def split: option.splits)

lemma store_ok_step: "store_ok st \<Longrightarrow> store_ok (step st e)"
proof (cases e)
  case (PairRequest ev ph)
  assume "store_ok st"
  with PairRequest show ?thesis by (simp add: store_ok_pair)
next
  case (ConnectionOpen sid creds)
  assume "store_ok st"
  with ConnectionOpen show ?thesis
    by (simp add: connection_open_def store_ok_open_encode store_ok_disk split: sum.splits)
next
  case (EncodeAfterDelay sid)
  assume "store_ok st"
  with EncodeAfterDelay show ?thesis by (simp add: store_ok_open_encode)
next
  case (ConnectionClose sid boom)
  assume "store_ok st"
  with ConnectionClose show ?thesis
    by (simp add: connection_close_def Let_def store_ok_cleanupSession)
next
  case (Watchdog sid)
  assume "store_ok st"
  with Watchdog show ?thesis
    by (simp add: watchdog_def store_ok_cleanupSession split: option.splits)
next
  case (Expiry sid)
  assume "store_ok st"
  with Expiry show ?thesis by (simp add: store_ok_cleanupSession)
next
  case (LibraryWrite sid name content)
  assume "store_ok st"
  with LibraryWrite show ?thesis
    by (simp add: library_write_def store_ok_disk split: sum.splits)
qed

lemma store_ok_foldl: "store_ok st \<Longrightarrow> store_ok (foldl step st evs)"
  by (induction evs arbitrary: st) (simp_all add: store_ok_step)

lemma store_ok_run: "store_ok (run st evs)"
  unfolding run_def by (rule store_ok_foldl) (simp add: boot_def store_ok_def)

text \<open>A run: one pairing request, then the open notification of its session.\<close>

lemma paired_state:
  "snd (pair env0 (JStr ''1234567'') server0) =
     server0\<lparr>disk := disk server0 @ [(dirA, Folder)],
             sessions := [''ALMEER_A'' \<mapsto>
               \<lparr>sock = 1, phone = ''1234567'', status = Pending, sessionString = None,
                createdAt = 0\<rparr>]\<rparr> \<and>
   fst (pair env0 (JStr ''1234567'') server0) =
     Inr \<lparr>http = 200,
          payload = PairOk (formattedCode (Some (units_of_ascii ''ABCD1234''))) ''ALMEER_A''\<rparr>"
  by (simp add: pair_def pair_with_def provision_and_pair_def Let_def dirA_def
      session_dir_def path_join_def norm_step_def strip_non_digits_def is_digit_def env0_def
      ensureDirSync_def disk_lookup_def server0_def)

lemma base64_example: "base64 (JSON_stringify [(''creds.json'', ''{}'')]) = ''eyJjcmVkcy5qc29uIjoie30ifQ==''"
  by (simp add: JSON_stringify_def own_keys_order_def is_array_index_def is_digit_def
      json_quote_def json_escape_def dquote_def bslash_def Let_def b64_digit_def
      b64_alphabet_def)

lemma boot_server0: "boot server0 = server0"
  by (simp add: boot_def server0_def)

lemma session_dir_app: "dirname st = [''app''] \<Longrightarrow> session_dir st ''ALMEER_A'' = dirA"
  by (simp add: session_dir_def dirA_def path_join_def norm_step_def)

lemma encode_example:
  "encodeSession [([''app''], Folder), ([''app'', ''sessions''], Folder), (dirA, Folder),
                  (dirA @ [''creds.json''], File ''{}'')] dirA
     = Some ''eyJjcmVkcy5qc29uIjoie30ifQ==''"
  by (simp add: encodeSession_def encodeSession_result_def encode_body_def encode_files_def
      existsSync_def readdirSync_def statSync_isFile_def readFileSync_def disk_lookup_def
      child_def dirA_def Let_def obj_assign_def base64_example)

lemma encode_no_marker:
  "encodeSession [([''app''], Folder), ([''app'', ''sessions''], Folder), (dirA, Folder)] dirA
     = None"
  by (simp add: encodeSession_def encodeSession_result_def encode_body_def encode_files_def
      existsSync_def disk_lookup_def child_def dirA_def)

lemma run_pair:
  "run server0 [PairRequest env0 (JStr ''1234567'')]
     = server0\<lparr>disk := disk server0 @ [(dirA, Folder)],
               sessions := [''ALMEER_A'' \<mapsto>
                 \<lparr>sock = 1, phone = ''1234567'', status = Pending, sessionString = None,
                  createdAt = 0\<rparr>]\<rparr>"
  by (simp add: run_def boot_server0 paired_state)

lemma run_pair_open:
  "sessions (run server0 [PairRequest env0 (JStr ''1234567''),
                          ConnectionOpen ''ALMEER_A'' ''{}'']) ''ALMEER_A''
   = Some \<lparr>sock = 1, phone = ''1234567'', status = Connected,
            sessionString = Some ''eyJjcmVkcy5qc29uIjoie30ifQ=='', createdAt = 0\<rparr>"
proof -
  have wr: "writeFile [([''app''], Folder), ([''app'', ''sessions''], Folder), (dirA, Folder)]
        (child dirA ''creds.json'') ''{}''
      = Inr [([''app''], Folder), ([''app'', ''sessions''], Folder), (dirA, Folder),
             (dirA @ [''creds.json''], File ''{}'')]"
    by (simp add: writeFile_def child_def dirA_def disk_lookup_def)
  have two: "run server0 [PairRequest env0 (JStr ''1234567''), ConnectionOpen ''ALMEER_A'' ''{}'']
      = connection_open ''ALMEER_A'' ''{}''
          (server0\<lparr>disk := disk server0 @ [(dirA, Folder)],
             sessions := [''ALMEER_A'' \<mapsto>
               \<lparr>sock = 1, phone = ''1234567'', status = Pending, sessionString = None,
                createdAt = 0\<rparr>]\<rparr>)"
    by (simp add: run_def boot_server0 paired_state)
  show ?thesis
    unfolding two
    by (simp add: connection_open_def session_dir_app wr open_encode_def Let_def
        encode_example server0_def)
qed

lemma run_pair_encode_early:
  "sessions (open_encode ''ALMEER_A'' (run server0 [PairRequest env0 (JStr ''1234567'')]))
     ''ALMEER_A''
   = Some \<lparr>sock = 1, phone = ''1234567'', status = Connected, sessionString = None,
            createdAt = 0\<rparr> \<and>
   encodeSession (disk (run server0 [PairRequest env0 (JStr ''1234567'')]))
     (session_dir (run server0 [PairRequest env0 (JStr ''1234567'')]) ''ALMEER_A'') = None"
  unfolding run_pair
  by (simp add: open_encode_def session_dir_app Let_def encode_no_marker server0_def)

text \<open>
  Claim C7. In every state the server reaches, \<^verbatim>\<open>GET /api/session/:sessionId\<close> answers
  \<^verbatim>\<open>{success: true, sessionId, sessionString}\<close> exactly when the record exists, is
  connected and holds a session string; it answers 404 for an unknown identifier, 400 for a
  record that is not connected, and 500 for a connected record whose string is null.
\<close>

theorem get_session_outcomes:
  "(get_session (run st0 evs) sid = \<lparr>http = 200, payload = SessionOk sid str\<rparr>
      \<longleftrightarrow> (\<exists>r. sessions (run st0 evs) sid = Some r \<and> status r = Connected \<and>
                sessionString r = Some str)) \<and>
   (sessions (run st0 evs) sid = None \<longrightarrow>
      get_session (run st0 evs) sid = \<lparr>http = 404, payload = Failure SessionNotFound\<rparr>) \<and>
   (sessions (run st0 evs) sid = Some r \<and> status r \<noteq> Connected \<longrightarrow>
      get_session (run st0 evs) sid
        = \<lparr>http = 400, payload = Failure (NotConnectedYet (status r))\<rparr>) \<and>
   (sessions (run st0 evs) sid = Some r \<and> status r = Connected \<and> sessionString r = None \<longrightarrow>
      get_session (run st0 evs) sid = \<lparr>http = 500, payload = Failure StringNotReady\<rparr>)"
proof -
  have "store_ok (run st0 evs)" by (rule store_ok_run)
  then show ?thesis
    by (auto simp add: get_session_def falsy_string_def store_ok_def record_ok_def
        split: option.splits)
qed

theorem get_session_outcomes_witness:
  "get_session (run server0 [PairRequest env0 (JStr ''1234567''),
                             ConnectionOpen ''ALMEER_A'' ''{}'']) ''ALMEER_A''
     = \<lparr>http = 200, payload = SessionOk ''ALMEER_A'' ''eyJjcmVkcy5qc29uIjoie30ifQ==''\<rparr> \<and>
   get_session (run server0 [PairRequest env0 (JStr ''1234567''),
                             EncodeAfterDelay ''ALMEER_A'']) ''ALMEER_A''
     = \<lparr>http = 500, payload = Failure StringNotReady\<rparr> \<and>
   get_session (run server0 [PairRequest env0 (JStr ''1234567'')]) ''ALMEER_A''
     = \<lparr>http = 400, payload = Failure (NotConnectedYet Pending)\<rparr> \<and>
   get_session (run server0 []) ''ALMEER_A''
     = \<lparr>http = 404, payload = Failure SessionNotFound\<rparr>"
proof -
  have pending: "sessions (run server0 [PairRequest env0 (JStr ''1234567'')]) ''ALMEER_A''
      = Some \<lparr>sock = 1, phone = ''1234567'', status = Pending, sessionString = None,
               createdAt = 0\<rparr>"
    by (simp add: run_pair)
  have early: "sessions (run server0 [PairRequest env0 (JStr ''1234567''),
                                      EncodeAfterDelay ''ALMEER_A'']) ''ALMEER_A''
      = Some \<lparr>sock = 1, phone = ''1234567'', status = Connected, sessionString = None,
               createdAt = 0\<rparr>"
    using run_pair_encode_early by (simp add: run_def)
  have none: "sessions (run server0 []) ''ALMEER_A'' = None"
    by (simp add: run_def boot_def)
  show ?thesis
    using run_pair_open pending early none
      get_session_outcomes [of server0
        "[PairRequest env0 (JStr ''1234567''), ConnectionOpen ''ALMEER_A'' ''{}'']"
        "''ALMEER_A''" "''eyJjcmVkcy5qc29uIjoie30ifQ==''"]
      get_session_outcomes [of server0
        "[PairRequest env0 (JStr ''1234567''), EncodeAfterDelay ''ALMEER_A'']" "''ALMEER_A''" _
        "\<lparr>sock = 1, phone = ''1234567'', status = Connected, sessionString = None,
               createdAt = 0\<rparr>"]
      get_session_outcomes [of server0 "[PairRequest env0 (JStr ''1234567'')]" "''ALMEER_A''" _
        "\<lparr>sock = 1, phone = ''1234567'', status = Pending, sessionString = None,
               createdAt = 0\<rparr>"]
      get_session_outcomes [of server0 "[]" "''ALMEER_A''"]
    by simp
qed

subsection \<open>Records and their marks\<close>

lemma fst_foldl_track: "fst (foldl track sg evs) = foldl step (fst sg) evs"
  by (induction evs arbitrary: sg) (simp_all add: track_def)

lemma run_marks: "foldl track (boot st, \<lambda>sid. None) evs = (run st evs, marks st evs)"
  using fst_foldl_track [of "(boot st, \<lambda>sid. None)" evs]
  by (simp add: run_def marks_def prod_eq_iff)

lemma marks_snoc:
  "marks st (evs @ [e]) sid =
     (case observe (run st evs) e sid of None \<Rightarrow> marks st evs sid | Some m \<Rightarrow> Some m)"
  unfolding marks_def run_def by (simp add: track_def fst_foldl_track)

lemma run_snoc: "run st (evs @ [e]) = step (run st evs) e"
  by (simp add: run_def)

lemma pair_sessions:
  "(sets_record ev ph st \<longrightarrow>
      (\<exists>r. status r = Pending \<and> sessionString r = None \<and>
           sessions (snd (pair ev ph st)) = (sessions st)(new_id ev \<mapsto> r)) \<or>
      sessions (snd (pair ev ph st)) = (sessions st)(new_id ev := None)) \<and>
   (\<not> sets_record ev ph st \<longrightarrow>
      sessions (snd (pair ev ph st)) = sessions st \<or>
      sessions (snd (pair ev ph st)) = (sessions st)(new_id ev := None))"
proof (cases ph)
  case (JStr s)
  show ?thesis
  proof (cases "truthy ph \<and> 7 \<le> length (strip_non_digits s)")
    case False
    with JStr show ?thesis
      by (auto simp add: sets_record_def pair_def pair_with_def Let_def strip_non_digits_def)
  next
    case True
    then have valid: "s \<noteq> []" "\<not> length (strip_non_digits s) < 7" using JStr by auto
    let ?sid = "new_id ev"
    show ?thesis
    proof (cases "ensureDirSync (disk st) (session_dir st ?sid)")
      case (Inl e)
      with JStr valid sessions_cleanupSession [of ?sid st] show ?thesis
        by (simp add: sets_record_def pair_def pair_with_def provision_and_pair_def Let_def)
    next
      case (Inr d)
      show ?thesis
      proof (cases "provision ev")
        case (Inl e)
        with JStr valid Inr sessions_cleanupSession [of ?sid "st\<lparr>disk := d\<rparr>"] show ?thesis
          by (simp add: sets_record_def pair_def pair_with_def provision_and_pair_def Let_def)
      next
        case sk: (Inr sk)
        let ?r = "\<lparr>sock = sk, phone = strip_non_digits s, status = Pending,
                   sessionString = None, createdAt = now ev\<rparr>"
        let ?st2 = "st\<lparr>disk := d, sessions := (sessions st)(?sid \<mapsto> ?r)\<rparr>"
        from JStr valid Inr sk have made: "sets_record ev ph st"
          by (simp add: sets_record_def)
        from JStr valid Inr sk
        have "snd (pair ev ph st) = ?st2 \<or> snd (pair ev ph st) = cleanupSession ?sid ?st2"
          by (simp add: pair_def pair_with_def provision_and_pair_def Let_def
              split: sum.splits)
        with sessions_cleanupSession [of ?sid ?st2]
        have alt: "sessions (snd (pair ev ph st)) = (sessions st)(?sid \<mapsto> ?r) \<or>
              sessions (snd (pair ev ph st)) = (sessions st)(?sid := None)"
          by auto
        have fresh: "status ?r = Pending" "sessionString ?r = None" by simp_all
        from made alt fresh show ?thesis by blast
      qed
    qed
  qed
qed (simp_all add: sets_record_def pair_def pair_with_def)

lemma agrees_cleanupSession: "agrees st g \<Longrightarrow> agrees (cleanupSession sid st) g"
  using sessions_cleanupSession [of sid st] by (auto simp add: agrees_def split: if_splits)

lemma agrees_disk: "agrees (st\<lparr>disk := d\<rparr>) g = agrees st g"
  by (simp add: agrees_def)

lemma session_dir_disk: "session_dir (st\<lparr>disk := d\<rparr>) sid = session_dir st sid"
  by (simp add: session_dir_def)

lemma agrees_open_encode:
  assumes "agrees st g"
  shows "agrees (open_encode x st)
           (\<lambda>sid. if sid = x \<and> sessions st x \<noteq> None
                   then Some (Encoded (encodeSession (disk st) (session_dir st x)))
                   else g sid)"
  using assms
  by (auto simp add: agrees_def open_encode_def Let_def split: option.splits)

lemma agrees_track:
  assumes "agrees st g"
  shows "agrees (step st e) (snd (track (st, g) e))"
proof (cases e)
  case (PairRequest ev ph)
  have "agrees (snd (pair ev ph st))
      (\<lambda>sid. if sid = new_id ev \<and> sets_record ev ph st then Some Fresh else g sid)"
    using assms pair_sessions [of ev ph st]
    by (cases "sets_record ev ph st") (auto simp add: agrees_def split: if_splits)
  moreover have "snd (track (st, g) e)
      = (\<lambda>sid. if sid = new_id ev \<and> sets_record ev ph st then Some Fresh else g sid)"
    by (auto simp add: track_def PairRequest fun_eq_iff)
  ultimately show ?thesis by (simp add: PairRequest)
next
  case (ConnectionOpen x creds)
  show ?thesis
  proof (cases "writeFile (disk st) (child (session_dir st x) ''creds.json'') creds")
    case (Inl err)
    then have "snd (track (st, g) e) = g"
      by (auto simp add: track_def ConnectionOpen fun_eq_iff)
    with assms Inl show ?thesis by (simp add: ConnectionOpen connection_open_def)
  next
    case (Inr d)
    from assms have "agrees (st\<lparr>disk := d\<rparr>) g" by (simp add: agrees_disk)
    from agrees_open_encode [OF this, of x]
    have "agrees (open_encode x (st\<lparr>disk := d\<rparr>))
        (\<lambda>sid. if sid = x \<and> sessions st x \<noteq> None
                then Some (Encoded (encodeSession d (session_dir st x))) else g sid)"
      by (simp add: session_dir_disk cong: if_cong)
    moreover have "snd (track (st, g) e)
        = (\<lambda>sid. if sid = x \<and> sessions st x \<noteq> None
                  then Some (Encoded (encodeSession d (session_dir st x))) else g sid)"
      using Inr by (auto simp add: track_def ConnectionOpen fun_eq_iff)
    ultimately show ?thesis using Inr by (simp add: ConnectionOpen connection_open_def)
  qed
next
  case (EncodeAfterDelay x)
  have "snd (track (st, g) e)
      = (\<lambda>sid. if sid = x \<and> sessions st x \<noteq> None
                then Some (Encoded (encodeSession (disk st) (session_dir st x))) else g sid)"
    by (auto simp add: track_def EncodeAfterDelay fun_eq_iff)
  with agrees_open_encode [OF assms, of x] show ?thesis by (simp add: EncodeAfterDelay)
next
  case (ConnectionClose x boom)
  with assms show ?thesis
    by (simp add: track_def connection_close_def Let_def agrees_cleanupSession)
next
  case (Watchdog x)
  with assms show ?thesis
    by (simp add: track_def watchdog_def agrees_cleanupSession split: option.splits)
next
  case (Expiry x)
  with assms show ?thesis by (simp add: track_def agrees_cleanupSession)
next
  case (LibraryWrite x name content)
  with assms show ?thesis
    by (simp add: track_def library_write_def agrees_disk split: sum.splits)
qed

lemma agrees_foldl:
  "agrees (fst sg) (snd sg) \<Longrightarrow>
   agrees (fst (foldl track sg evs)) (snd (foldl track sg evs))"
proof (induction evs arbitrary: sg)
  case Nil
  then show ?case by simp
next
  case (Cons e evs)
  from Cons.prems have "agrees (fst (track sg e)) (snd (track sg e))"
    using agrees_track [of "fst sg" "snd sg" e] by (simp add: track_def)
  from Cons.IH [OF this] show ?case by simp
qed

lemma agrees_run: "agrees (run st evs) (marks st evs)"
proof -
  have "agrees (fst (boot st, \<lambda>sid. None)) (snd (boot st, \<lambda>sid. None))"
    by (simp add: agrees_def boot_def)
  from agrees_foldl [OF this, of evs] show ?thesis
    by (simp only: run_marks fst_conv snd_conv)
qed

text \<open>
  Claim C8. At every point of every run, for every live record: its session string is
  non-null if and only if the record is connected and the latest call of
  \<^verbatim>\<open>encodeSession\<close> for it returned a string. A pending record holds null and has had no
  encoding. A connected record holds exactly what the latest encoding returned, so it
  keeps null when that encoding returned null. The open notification, once its delay is
  over, makes the record connected and stores what \<^verbatim>\<open>encodeSession\<close> returns.
\<close>

theorem sessionString_lifecycle:
  "(sessions (run st0 evs) sid = Some r \<longrightarrow>
      (sessionString r \<noteq> None \<longleftrightarrow>
         status r = Connected \<and> (\<exists>s. marks st0 evs sid = Some (Encoded (Some s)))) \<and>
      (status r = Pending \<longrightarrow> sessionString r = None \<and> marks st0 evs sid = Some Fresh) \<and>
      (status r = Connected \<longrightarrow> marks st0 evs sid = Some (Encoded (sessionString r)))) \<and>
   (sessions (open_encode sid (run st0 evs)) sid = Some r' \<longrightarrow>
      status r' = Connected \<and>
      sessionString r' = encodeSession (disk (run st0 evs)) (session_dir (run st0 evs) sid))"
proof -
  have "agrees (run st0 evs) (marks st0 evs)" by (rule agrees_run)
  then have a: "sessions (run st0 evs) sid = Some r \<Longrightarrow>
      (case marks st0 evs sid of
         None \<Rightarrow> False
       | Some Fresh \<Rightarrow> status r = Pending \<and> sessionString r = None
       | Some (Encoded res) \<Rightarrow> status r = Connected \<and> sessionString r = res)"
    by (simp add: agrees_def)
  have b: "sessions (open_encode sid st) sid = Some r' \<longrightarrow>
      status r' = Connected \<and>
      sessionString r' = encodeSession (disk st) (session_dir st sid)" for st
    by (auto simp add: open_encode_def Let_def split: option.splits)
  from a b [of "run st0 evs"] show ?thesis
    by (auto split: option.splits mark.splits)
qed

lemma run_pair_open_watchdog:
  "sessions (run server0 [PairRequest env0 (JStr ''1234567''),
                          ConnectionOpen ''ALMEER_A'' ''{}'', Watchdog ''ALMEER_A''])
     ''ALMEER_A''
   = Some \<lparr>sock = 1, phone = ''1234567'', status = Connected,
            sessionString = Some ''eyJjcmVkcy5qc29uIjoie30ifQ=='', createdAt = 0\<rparr>"
  using run_pair_open
    run_snoc [of server0 "[PairRequest env0 (JStr ''1234567''),
                           ConnectionOpen ''ALMEER_A'' ''{}'']" "Watchdog ''ALMEER_A''"]
  by (simp add: watchdog_def)

theorem sessionString_lifecycle_witness:
  "sessions (run server0 [PairRequest env0 (JStr ''1234567'')]) ''ALMEER_A''
     = Some \<lparr>sock = 1, phone = ''1234567'', status = Pending, sessionString = None,
              createdAt = 0\<rparr> \<and>
   marks server0 [PairRequest env0 (JStr ''1234567'')] ''ALMEER_A'' = Some Fresh \<and>
   sessions (run server0 [PairRequest env0 (JStr ''1234567''),
                          ConnectionOpen ''ALMEER_A'' ''{}'', Watchdog ''ALMEER_A''])
       ''ALMEER_A''
     = Some \<lparr>sock = 1, phone = ''1234567'', status = Connected,
              sessionString = Some ''eyJjcmVkcy5qc29uIjoie30ifQ=='', createdAt = 0\<rparr> \<and>
   marks server0 [PairRequest env0 (JStr ''1234567''),
                  ConnectionOpen ''ALMEER_A'' ''{}'', Watchdog ''ALMEER_A''] ''ALMEER_A''
     = Some (Encoded (Some ''eyJjcmVkcy5qc29uIjoie30ifQ=='')) \<and>
   sessions (run server0 [PairRequest env0 (JStr ''1234567''),
                          EncodeAfterDelay ''ALMEER_A'']) ''ALMEER_A''
     = Some \<lparr>sock = 1, phone = ''1234567'', status = Connected, sessionString = None,
              createdAt = 0\<rparr> \<and>
   marks server0 [PairRequest env0 (JStr ''1234567''), EncodeAfterDelay ''ALMEER_A'']
       ''ALMEER_A''
     = Some (Encoded None)"
proof -
  have pending: "sessions (run server0 [PairRequest env0 (JStr ''1234567'')]) ''ALMEER_A''
      = Some \<lparr>sock = 1, phone = ''1234567'', status = Pending, sessionString = None,
               createdAt = 0\<rparr>"
    by (simp add: run_pair)
  have early: "sessions (run server0 [PairRequest env0 (JStr ''1234567''),
                                      EncodeAfterDelay ''ALMEER_A'']) ''ALMEER_A''
      = Some \<lparr>sock = 1, phone = ''1234567'', status = Connected, sessionString = None,
               createdAt = 0\<rparr>"
    using run_pair_encode_early by (simp add: run_def)
  show ?thesis
    using pending early run_pair_open_watchdog
      sessionString_lifecycle [of server0 "[PairRequest env0 (JStr ''1234567'')]" "''ALMEER_A''"
        "\<lparr>sock = 1, phone = ''1234567'', status = Pending, sessionString = None,
          createdAt = 0\<rparr>"]
      sessionString_lifecycle [of server0
        "[PairRequest env0 (JStr ''1234567''), ConnectionOpen ''ALMEER_A'' ''{}'',
          Watchdog ''ALMEER_A'']" "''ALMEER_A''"
        "\<lparr>sock = 1, phone = ''1234567'', status = Connected,
          sessionString = Some ''eyJjcmVkcy5qc29uIjoie30ifQ=='', createdAt = 0\<rparr>"]
      sessionString_lifecycle [of server0
        "[PairRequest env0 (JStr ''1234567''), EncodeAfterDelay ''ALMEER_A'']" "''ALMEER_A''"
        "\<lparr>sock = 1, phone = ''1234567'', status = Connected, sessionString = None,
          createdAt = 0\<rparr>"]
    by simp
qed

section \<open>The formatted pairing code\<close>

lemma match_chunks_groups4:
  "list_all (\<lambda>c. \<not> line_terminator c) s \<Longrightarrow> match_chunks s = groups4 s"
proof (induction s rule: groups4.induct)
  case 1
  then show ?case by simp
next
  case (2 x xs)
  then have all3: "list_all (\<lambda>c. \<not> line_terminator c) (take 3 xs)"
    and rest: "list_all (\<lambda>c. \<not> line_terminator c) (drop 3 xs)"
    by (auto simp add: list_all_iff dest: in_set_takeD in_set_dropD)
  from all3 have tw: "takeWhile (\<lambda>c. \<not> line_terminator c) (take 3 xs) = take 3 xs"
    by (simp add: list_all_iff)
  have dr: "drop (min (length xs) 3) xs = drop 3 xs"
    by (simp add: min_def)
  from 2 have head: "\<not> line_terminator x" by simp
  from 2 rest have "match_chunks (drop 3 xs) = groups4 (drop 3 xs)" by simp
  with head show ?case by (simp add: Let_def tw dr)
qed

lemma concat_groups4: "concat (groups4 s) = s"
  by (induction s rule: groups4.induct) simp_all

lemma groups4_sizes: "g \<in> set (groups4 s) \<Longrightarrow> 0 < length g \<and> length g \<le> 4"
  by (induction s rule: groups4.induct) auto

lemma join_nonempty: "g \<noteq> [] \<Longrightarrow> join sep (g # gs) \<noteq> []"
  by (cases gs) simp_all

lemma formattedCode_plain:
  assumes "list_all (\<lambda>c. \<not> line_terminator c) raw"
  shows "formattedCode (Some raw) = Some (join (units_of_ascii ''-'') (groups4 raw))"
proof (cases raw)
  case Nil
  then show ?thesis by (simp add: formattedCode_def)
next
  case (Cons x xs)
  from assms have "match_chunks raw = groups4 raw"
    by (rule match_chunks_groups4)
  with Cons show ?thesis
    by (simp add: formattedCode_def Let_def join_nonempty)
qed

text \<open>
  Code units, not bytes: four times U+00E9 and an \<open>a\<close> make one group of four and one of
  one. A code with U+2028 in it is not cut into a partition: the separator is dropped.
\<close>

lemma formattedCode_beyond_ascii:
  "formattedCode (Some [233, 233, 233, 233, 97]) = Some [233, 233, 233, 233, 45, 97] \<and>
   formattedCode (Some [65, 66, 8232, 67, 68, 69, 70, 71])
     = Some [65, 66, 45, 67, 68, 69, 70, 45, 71]"
  by (simp add: formattedCode_def line_terminator_def units_of_ascii_def Let_def)

text \<open>
  Claim C9. When the request is valid, the folder and the socket are made and
  \<^verbatim>\<open>requestPairingCode\<close> answers with a code that holds no line terminator, the handler
  answers HTTP 200 with the code cut from the left into groups of at most four code units
  joined by \<^verbatim>\<open>-\<close>, and the record of the session is pending, with no session string.
\<close>

theorem pair_success_formats_code:
  assumes "7 \<le> length (strip_non_digits s)"
    and "ensureDirSync (disk st) (session_dir st (new_id ev)) = Inr d"
    and "provision ev = Inr sk"
    and "pairing ev = Inr (Some raw)"
    and "list_all (\<lambda>c. \<not> line_terminator c) raw"
  shows "fst (pair ev (JStr s) st)
           = Inr \<lparr>http = 200,
                  payload = PairOk (Some (join (units_of_ascii ''-'') (groups4 raw)))
                              (new_id ev)\<rparr> \<and>
         concat (groups4 raw) = raw \<and>
         (\<forall>g \<in> set (groups4 raw). 0 < length g \<and> length g \<le> 4) \<and>
         sessions (snd (pair ev (JStr s) st)) (new_id ev)
           = Some \<lparr>sock = sk, phone = strip_non_digits s, status = Pending,
                    sessionString = None, createdAt = now ev\<rparr>"
proof -
  from assms(1) have "s \<noteq> []" by (auto simp add: strip_non_digits_def)
  with assms have handler:
    "fst (pair ev (JStr s) st)
       = Inr \<lparr>http = 200,
              payload = PairOk (Some (join (units_of_ascii ''-'') (groups4 raw)))
                          (new_id ev)\<rparr> \<and>
     sessions (snd (pair ev (JStr s) st)) (new_id ev)
       = Some \<lparr>sock = sk, phone = strip_non_digits s, status = Pending,
                sessionString = None, createdAt = now ev\<rparr>"
    by (simp add: pair_def pair_with_def provision_and_pair_def Let_def formattedCode_plain)
  have sizes: "\<forall>g \<in> set (groups4 raw). 0 < length g \<and> length g \<le> 4"
    using groups4_sizes by blast
  from handler sizes show ?thesis
    by (simp add: concat_groups4)
qed

theorem pair_success_formats_code_witness:
  "7 \<le> length (strip_non_digits ''1234567'') \<and>
   ensureDirSync (disk server0) (session_dir server0 (new_id env0))
     = Inr (disk server0 @ [(dirA, Folder)]) \<and>
   provision env0 = Inr 1 \<and>
   pairing env0 = Inr (Some (units_of_ascii ''ABCD1234'')) \<and>
   list_all (\<lambda>c. \<not> line_terminator c) (units_of_ascii ''ABCD1234'') \<and>
   groups4 (units_of_ascii ''ABCD1234'') = [units_of_ascii ''ABCD'', units_of_ascii ''1234''] \<and>
   fst (pair env0 (JStr ''1234567'') server0)
     = Inr \<lparr>http = 200, payload = PairOk (Some (units_of_ascii ''ABCD-1234'')) ''ALMEER_A''\<rparr>"
proof -
  have a: "7 \<le> length (strip_non_digits ''1234567'')"
    by (simp add: strip_non_digits_def is_digit_def)
  have b: "ensureDirSync (disk server0) (session_dir server0 (new_id env0))
     = Inr (disk server0 @ [(dirA, Folder)])"
    by (simp add: ensureDirSync_def session_dir_def path_join_def norm_step_def env0_def
        server0_def dirA_def disk_lookup_def)
  have c: "provision env0 = Inr 1" "pairing env0 = Inr (Some (units_of_ascii ''ABCD1234''))"
    by (simp_all add: env0_def)
  have e: "list_all (\<lambda>c. \<not> line_terminator c) (units_of_ascii ''ABCD1234'')"
    by (simp add: line_terminator_def units_of_ascii_def)
  have g: "groups4 (units_of_ascii ''ABCD1234'') = [units_of_ascii ''ABCD'', units_of_ascii ''1234'']"
    by (simp add: units_of_ascii_def)
  have j: "join (units_of_ascii ''-'') [units_of_ascii ''ABCD'', units_of_ascii ''1234'']
      = units_of_ascii ''ABCD-1234''"
    by (simp add: units_of_ascii_def)
  have n: "new_id env0 = ''ALMEER_A''" by (simp add: env0_def)
  from pair_success_formats_code [OF a b c e] a b c e g j n show ?thesis
    by simp
qed

section \<open>Reading back what the encoder wrote\<close>

subsection \<open>Base64\<close>

lemma find_pos_nth:
  "distinct xs \<Longrightarrow> k < length xs \<Longrightarrow> find_pos (xs ! k) xs = Some k"
proof (induction xs arbitrary: k)
  case Nil
  then show ?case by simp
next
  case (Cons x xs)
  then show ?case by (cases k) auto
qed

lemma b64_alphabet_distinct: "distinct b64_alphabet"
  by (simp add: b64_alphabet_def)

lemma b64_alphabet_length: "length b64_alphabet = 64"
  by (simp add: b64_alphabet_def)

lemma b64_value_digit: "n < 64 \<Longrightarrow> b64_value (b64_digit n) = Some n"
  by (simp add: b64_value_def b64_digit_def find_pos_nth b64_alphabet_distinct
      b64_alphabet_length)

lemma b64_digit_not_pad: "b64_digit n \<noteq> CHR ''=''"
proof -
  have "CHR ''='' \<notin> set b64_alphabet" by (simp add: b64_alphabet_def)
  moreover have "b64_digit n \<in> set b64_alphabet"
    by (simp add: b64_digit_def b64_alphabet_length)
  ultimately show ?thesis by metis
qed

lemma sextet_bounds:
  fixes x y z :: nat
  assumes "x < 256" "y < 256" "z < 256"
  shows "x div 4 < 64" "(x mod 4) * 16 < 64" "(x mod 4) * 16 + y div 16 < 64"
    "(y mod 16) * 4 < 64" "(y mod 16) * 4 + z div 64 < 64" "z mod 64 < 64"
proof -
  from assms have "y div 16 < 16" "z div 64 < 4" by simp_all
  moreover have "x mod 4 < 4" "y mod 16 < 16" by simp_all
  ultimately show "(x mod 4) * 16 < 64" "(x mod 4) * 16 + y div 16 < 64"
    "(y mod 16) * 4 < 64" "(y mod 16) * 4 + z div 64 < 64"
    by linarith+
  from assms show "x div 4 < 64" "z mod 64 < 64" by simp_all
qed

lemma first_byte:
  fixes x y :: nat
  assumes "y < 256"
  shows "(x div 4) * 4 + ((x mod 4) * 16 + y div 16) div 16 = x"
    and "(x div 4) * 4 + ((x mod 4) * 16) div 16 = x"
  using assms by (simp_all add: div_mult2_eq [symmetric])

lemma second_byte:
  fixes x y z :: nat
  assumes "y < 256" "z < 256"
  shows "(((x mod 4) * 16 + y div 16) mod 16) * 16 + ((y mod 16) * 4 + z div 64) div 4 = y"
    and "(((x mod 4) * 16 + y div 16) mod 16) * 16 + ((y mod 16) * 4) div 4 = y"
proof -
  from assms have a: "y div 16 < 16" and b: "z div 64 < 4" by simp_all
  from a have c: "((x mod 4) * 16 + y div 16) mod 16 = y div 16" by simp
  from b have d: "((y mod 16) * 4 + z div 64) div 4 = y mod 16" by simp
  from c d show "(((x mod 4) * 16 + y div 16) mod 16) * 16
      + ((y mod 16) * 4 + z div 64) div 4 = y"
    by simp
  from c show "(((x mod 4) * 16 + y div 16) mod 16) * 16 + ((y mod 16) * 4) div 4 = y"
    by simp
qed

lemma third_byte:
  fixes y z :: nat
  assumes "z < 256"
  shows "(((y mod 16) * 4 + z div 64) mod 4) * 64 + z mod 64 = z"
proof -
  from assms have "z div 64 < 4" by simp
  then have "((y mod 16) * 4 + z div 64) mod 4 = z div 64" by simp
  then show ?thesis by simp
qed

lemma unbase64_one:
  assumes "p < 64" "q < 64"
  shows "unbase64 [b64_digit p, b64_digit q, CHR ''='', CHR ''='']
           = Some [char_of (p * 4 + q div 16)]"
  using assms by (simp add: b64_value_digit)

lemma unbase64_two:
  assumes "p < 64" "q < 64" "r < 64"
  shows "unbase64 [b64_digit p, b64_digit q, b64_digit r, CHR ''='']
           = Some [char_of (p * 4 + q div 16), char_of ((q mod 16) * 16 + r div 4)]"
  using assms by (simp add: b64_value_digit b64_digit_not_pad)

lemma unbase64_three:
  assumes "p < 64" "q < 64" "r < 64" "s < 64" "unbase64 rest = Some bs"
  shows "unbase64 (b64_digit p # b64_digit q # b64_digit r # b64_digit s # rest)
           = Some (char_of (p * 4 + q div 16) # char_of ((q mod 16) * 16 + r div 4)
                   # char_of ((r mod 4) * 64 + s) # bs)"
  using assms by (simp add: b64_value_digit b64_digit_not_pad)

lemma unbase64_base64: "unbase64 (base64 s) = Some s"
proof (induction s rule: base64.induct)
  case 1
  then show ?case by simp
next
  case (2 a)
  define x where "x = (of_char a :: nat)"
  have lt: "x < 256" by (simp add: x_def)
  have enc: "base64 [a] = [b64_digit (x div 4), b64_digit ((x mod 4) * 16), CHR ''='', CHR ''='']"
    by (simp add: x_def Let_def)
  have "unbase64 (base64 [a]) = Some [char_of ((x div 4) * 4 + ((x mod 4) * 16) div 16)]"
    unfolding enc by (rule unbase64_one) (simp_all add: sextet_bounds [OF lt lt lt])
  also have "\<dots> = Some [char_of x]"
    using first_byte(2) [of x x] lt by simp
  finally show ?case by (simp add: x_def)
next
  case (3 a b)
  define x y where "x = (of_char a :: nat)" and "y = (of_char b :: nat)"
  have lt: "x < 256" "y < 256" by (simp_all add: x_def y_def)
  have enc: "base64 [a, b] = [b64_digit (x div 4), b64_digit ((x mod 4) * 16 + y div 16),
      b64_digit ((y mod 16) * 4), CHR ''='']"
    by (simp add: x_def y_def Let_def)
  have "unbase64 (base64 [a, b])
      = Some [char_of ((x div 4) * 4 + ((x mod 4) * 16 + y div 16) div 16),
              char_of ((((x mod 4) * 16 + y div 16) mod 16) * 16 + ((y mod 16) * 4) div 4)]"
    unfolding enc by (rule unbase64_two) (simp_all add: sextet_bounds [OF lt(1) lt(2) lt(2)])
  also have "\<dots> = Some [char_of x, char_of y]"
    using first_byte(1) [OF lt(2), of x] second_byte(2) [OF lt(2) lt(2), of x] by simp
  finally show ?case by (simp add: x_def y_def)
next
  case (4 a b c r)
  define x y z where "x = (of_char a :: nat)" and "y = (of_char b :: nat)"
    and "z = (of_char c :: nat)"
  have lt: "x < 256" "y < 256" "z < 256" by (simp_all add: x_def y_def z_def)
  from 4 have ih: "unbase64 (base64 r) = Some r" by simp
  have enc: "base64 (a # b # c # r) =
      b64_digit (x div 4) # b64_digit ((x mod 4) * 16 + y div 16)
      # b64_digit ((y mod 16) * 4 + z div 64) # b64_digit (z mod 64) # base64 r"
    by (simp add: x_def y_def z_def Let_def)
  have "unbase64 (base64 (a # b # c # r))
      = Some (char_of ((x div 4) * 4 + ((x mod 4) * 16 + y div 16) div 16)
              # char_of ((((x mod 4) * 16 + y div 16) mod 16) * 16
                         + ((y mod 16) * 4 + z div 64) div 4)
              # char_of ((((y mod 16) * 4 + z div 64) mod 4) * 64 + z mod 64) # r)"
    unfolding enc by (rule unbase64_three) (simp_all add: sextet_bounds [OF lt] ih)
  also have "\<dots> = Some (char_of x # char_of y # char_of z # r)"
    using first_byte(1) [OF lt(2), of x] second_byte(1) [OF lt(2) lt(3), of x]
      third_byte [OF lt(3), of y]
    by simp
  finally show ?case by (simp add: x_def y_def z_def)
qed

subsection \<open>JSON strings\<close>

lemma hex_value_digit: "hex_value (hex_digit n) = Some (n mod 16)"
proof -
  have "k < 16 \<Longrightarrow> hex_value (''0123456789abcdef'' ! k) = Some k" for k
    by (auto simp add: numeral_eq_Suc less_Suc_eq hex_value_def)
  then show ?thesis by (simp add: hex_digit_def)
qed

lemma quote_not_backslash: "dquote \<noteq> bslash"
  by (simp add: dquote_def bslash_def)

lemma parse_chars_escape:
  "parse_chars (json_escape c @ rest) =
     (case parse_chars rest of None \<Rightarrow> None | Some (s, r) \<Rightarrow> Some (c # s, r))"
proof -
  define n where "n = (of_char c :: nat)"
  have c_eq: "c = char_of n" by (simp add: n_def)
  have specials: "of_char dquote = (34 :: nat)" "of_char bslash = (92 :: nat)"
    by (simp_all add: dquote_def bslash_def)
  consider (quote) "c = dquote" | (backslash) "c = bslash"
    | (short) "n = 8 \<or> n = 9 \<or> n = 10 \<or> n = 12 \<or> n = 13"
    | (control) "n < 32" "n \<noteq> 8" "n \<noteq> 9" "n \<noteq> 10" "n \<noteq> 12" "n \<noteq> 13"
    | (plain) "32 \<le> n" "c \<noteq> dquote" "c \<noteq> bslash"
    by (cases "n < 32") auto
  then show ?thesis
  proof cases
    case quote
    then show ?thesis
      by (simp add: json_escape_def unescape_def quote_not_backslash Let_def dquote_def
          bslash_def split: option.splits)
  next
    case backslash
    then show ?thesis
      by (simp add: json_escape_def unescape_def Let_def dquote_def bslash_def
          split: option.splits)
  next
    case short
    then have "c \<noteq> dquote" "c \<noteq> bslash" using specials by (auto simp add: n_def)
    with short show ?thesis
      unfolding c_eq
      by (auto simp add: json_escape_def unescape_def Let_def dquote_def bslash_def
          split: option.splits)
  next
    case control
    then have ne: "c \<noteq> dquote" "c \<noteq> bslash" using specials by (auto simp add: n_def)
    have esc: "json_escape c
        = [bslash, CHR ''u'', CHR ''0'', CHR ''0'', hex_digit (n div 16), hex_digit n]"
      using control ne by (simp add: json_escape_def Let_def n_def)
    have zero: "hex_value CHR ''0'' = Some 0" by (simp add: hex_value_def)
    from control have small: "n div 16 mod 16 = n div 16" by simp
    have cp: "((0 * 16 + 0) * 16 + n div 16) * 16 + n mod 16 = n" by simp
    from control have u: "utf8 n = Some [c]" by (simp add: utf8_def c_eq)
    show ?thesis
      unfolding esc
      by (simp add: quote_not_backslash [symmetric] hex_value_digit zero small u
          split: option.splits)
  next
    case plain
    then show ?thesis
      by (simp add: json_escape_def Let_def n_def split: option.splits)
  qed
qed

lemma parse_chars_quoted:
  "parse_chars (concat (map json_escape s) @ dquote # rest) = Some (s, rest)"
  by (induction s) (simp_all add: parse_chars_escape)

subsection \<open>JSON objects\<close>

lemma parse_members_step:
  "parse_members (json_quote k @ '':'' @ json_quote v @ x # s5) =
     (if x = CHR ''}'' then (if s5 = [] then Some [(k, v)] else None)
      else if x = CHR '','' then
        (case parse_members s5 of None \<Rightarrow> None | Some kvs \<Rightarrow> Some ((k, v) # kvs))
      else None)"
  by (subst parse_members.simps) (simp add: json_quote_def parse_chars_quoted)

lemma parse_members_join:
  "kvs \<noteq> [] \<Longrightarrow>
   parse_members (join '','' (map (\<lambda>(k, v). json_quote k @ '':'' @ json_quote v) kvs) @ ''}'')
     = Some kvs"
proof (induction kvs rule: list_nonempty_induct)
  case (single kv)
  obtain k v where kv: "kv = (k, v)" by (cases kv)
  show ?case
    using parse_members_step [of k v "CHR ''}''" "[]"] by (simp add: kv)
next
  case (cons kv kvs)
  obtain k v where kv: "kv = (k, v)" by (cases kv)
  from cons obtain kv' rest where kvs: "kvs = kv' # rest" by (cases kvs) auto
  let ?member = "\<lambda>(k, v). json_quote k @ '':'' @ json_quote v"
  have "join '','' (map ?member (kv # kvs)) @ ''}''
      = json_quote k @ '':'' @ json_quote v @ CHR '','' # (join '','' (map ?member kvs) @ ''}'')"
    by (simp add: kv kvs)
  then have "parse_members (join '','' (map ?member (kv # kvs)) @ ''}'')
      = (case parse_members (join '','' (map ?member kvs) @ ''}'') of
           None \<Rightarrow> None | Some r \<Rightarrow> Some ((k, v) # r))"
    using parse_members_step [of k v "CHR '',''" "join '','' (map ?member kvs) @ ''}''"]
    by simp
  with cons show ?case by (simp add: kv)
qed

lemma JSON_parse_stringify: "JSON_parse (JSON_stringify ob) = Some (own_keys_order ob)"
proof (cases "own_keys_order ob = []")
  case True
  then show ?thesis by (simp add: JSON_parse_def JSON_stringify_def)
next
  case False
  let ?member = "\<lambda>(k, v). json_quote k @ '':'' @ json_quote v"
  from False obtain kv rest where split: "own_keys_order ob = kv # rest"
    by (cases "own_keys_order ob") auto
  obtain k v where kv: "kv = (k, v)" by (cases kv)
  have "join '','' (map ?member (own_keys_order ob)) @ ''}'' \<noteq> ''}''"
    unfolding split by (cases rest) (simp_all add: kv json_quote_def)
  with parse_members_join [OF False] show ?thesis
    by (simp add: JSON_parse_def JSON_stringify_def)
qed

lemma decode_entries_encoded:
  "decode_entries (base64 (JSON_stringify ob)) = Some (own_keys_order ob)"
  by (simp add: decode_entries_def unbase64_base64 JSON_parse_stringify)

lemma own_keys_order_set: "set (own_keys_order ob) = set ob"
  by (auto simp add: own_keys_order_def)

lemma own_keys_order_length: "length (own_keys_order ob) = length ob"
proof -
  have "(\<lambda>(k, v). \<not> is_array_index k) = (\<lambda>kv. \<not> (\<lambda>(k, v :: string). is_array_index k) kv)"
    by auto
  then show ?thesis
    by (simp add: own_keys_order_def sum_length_filter_compl)
qed

lemma own_keys_order_distinct:
  assumes "distinct (map fst ob)"
  shows "distinct (map fst (own_keys_order ob))"
proof -
  have "card (set (map fst (own_keys_order ob))) = card (set (map fst ob))"
    by (simp add: own_keys_order_set)
  also from assms have "\<dots> = length (map fst ob)" by (rule distinct_card)
  also have "\<dots> = length (map fst (own_keys_order ob))"
    by (simp add: own_keys_order_length)
  finally show ?thesis by (rule card_distinct)
qed

lemma decodeSession_encoded:
  assumes "distinct (map fst ob)"
  shows "decodeSession (base64 (JSON_stringify ob)) = Some (map_of ob)"
proof -
  from assms have "distinct (map fst (rev (own_keys_order ob)))"
    by (simp add: own_keys_order_distinct rev_map [symmetric])
  moreover have "set (rev (own_keys_order ob)) = set ob"
    by (simp add: own_keys_order_set)
  ultimately have "map_of (rev (own_keys_order ob)) = map_of ob"
    using assms by (simp add: map_of_inject_set)
  then show ?thesis
    by (simp add: decodeSession_def decode_entries_encoded)
qed

subsection \<open>The object the loop builds\<close>

lemma put_keys: "fst ` set (put k v ob) = insert k (fst ` set ob)"
  by (induction ob) auto

lemma put_distinct: "distinct (map fst ob) \<Longrightarrow> distinct (map fst (put k v ob))"
proof (induction ob)
  case Nil
  then show ?case by simp
next
  case (Cons a ob)
  then show ?case using put_keys [of k v ob] by (auto simp add: image_iff)
qed

lemma map_of_put: "map_of (put k v ob) = (map_of ob)(k \<mapsto> v)"
  by (induction ob) auto

lemma collect_files_distinct:
  "collect_files d p names files = Inr files' \<Longrightarrow> distinct (map fst files) \<Longrightarrow>
   distinct (map fst files')"
proof (induction names arbitrary: files)
  case Nil
  then show ?case by simp
next
  case (Cons a names)
  then show ?case
    by (auto simp add: Let_def obj_assign_def put_distinct split: sum.splits if_splits)
qed

lemma collect_files_map:
  "collect_files d p names files = Inr files' \<Longrightarrow>
   map_of files' n =
     (if n \<in> set names \<and> n \<noteq> ''__proto__''
      then (case disk_lookup d (child p n) of Some (File t) \<Rightarrow> Some t | _ \<Rightarrow> map_of files n)
      else map_of files n)"
proof (induction names arbitrary: files)
  case Nil
  then show ?case by simp
next
  case (Cons a names)
  show ?case
  proof (cases "disk_lookup d (child p a)")
    case None
    with Cons.prems show ?thesis by (simp add: statSync_isFile_def)
  next
    case (Some k)
    show ?thesis
    proof (cases k)
      case (File t)
      with Some Cons.prems
      have rest: "collect_files d p names (obj_assign files a t) = Inr files'"
        by (simp add: statSync_isFile_def readFileSync_def Let_def)
      from Cons.IH [OF rest] Some File show ?thesis
        by (auto simp add: obj_assign_def map_of_put split: option.splits kind.splits)
    next
      case Denied
      with Some Cons.prems show ?thesis
        by (simp add: statSync_isFile_def readFileSync_def Let_def)
    next
      case Dangling
      with Some Cons.prems show ?thesis by (simp add: statSync_isFile_def)
    next
      case Folder
      with Some Cons.prems have rest: "collect_files d p names files = Inr files'"
        by (simp add: statSync_isFile_def Let_def)
      from Cons.IH [OF rest] Some Folder show ?thesis
        by (auto split: option.splits kind.splits)
    qed
  qed
qed

lemma readdirSync_names:
  assumes "readdirSync d p = Inr names"
  shows "n \<in> set names \<longleftrightarrow> disk_lookup d (child p n) \<noteq> None"
proof -
  from assms have names: "names = map (last \<circ> fst) (filter (\<lambda>(q, k). q \<noteq> [] \<and> butlast q = p) d)"
    by (auto simp add: readdirSync_def split: option.splits kind.splits)
  have "n \<in> set names \<longleftrightarrow> (\<exists>k. (p @ [n], k) \<in> set d)"
  proof
    assume "n \<in> set names"
    then obtain q k where "(q, k) \<in> set d" "q \<noteq> []" "butlast q = p" "last q = n"
      by (auto simp add: names)
    then have "q = p @ [n]" by (metis append_butlast_last_id)
    with \<open>(q, k) \<in> set d\<close> show "\<exists>k. (p @ [n], k) \<in> set d" by blast
  next
    assume "\<exists>k. (p @ [n], k) \<in> set d"
    then obtain k where "(p @ [n], k) \<in> set d" ..
    then show "n \<in> set names" by (force simp add: names image_iff)
  qed
  also have "\<dots> \<longleftrightarrow> map_of d (p @ [n]) \<noteq> None"
    by (metis map_of_eq_None_iff image_iff fst_conv not_None_eq weak_map_of_SomeI map_of_SomeD)
  finally show ?thesis by (simp add: disk_lookup_def child_def)
qed

subsection \<open>The round trip\<close>

text \<open>
  Revision one, any folder: whenever \<^verbatim>\<open>encodeSession\<close> returns a string, reading it back
  gives the mapping from the names of the regular files directly in the folder to their
  text, without the name \<^verbatim>\<open>__proto__\<close>. Subfolders contribute nothing.
\<close>

lemma encodeSession_decodes_to_files:
  assumes "encodeSession d p = Some blob"
  shows "\<exists>m. decodeSession blob = Some m \<and>
           (\<forall>n t. m n = Some t \<longleftrightarrow>
              n \<noteq> ''__proto__'' \<and> disk_lookup d (child p n) = Some (File t))"
proof -
  from assms obtain names files where
    listing: "readdirSync d p = Inr names" and
    loop: "collect_files d p names [] = Inr files" and
    blob: "blob = base64 (JSON_stringify files)"
    by (auto simp add: encodeSession_def encodeSession_result_def encode_body_def
        encode_files_def Let_def split: sum.splits option.splits if_splits)
  from loop have "distinct (map fst files)"
    by (rule collect_files_distinct) simp
  then have dec: "decodeSession blob = Some (map_of files)"
    unfolding blob by (rule decodeSession_encoded)
  have "map_of files n = Some t \<longleftrightarrow>
      n \<noteq> ''__proto__'' \<and> disk_lookup d (child p n) = Some (File t)" for n t
    using collect_files_map [OF loop, of n] readdirSync_names [OF listing, of n]
    by (auto split: option.splits kind.splits)
  with dec show ?thesis by blast
qed

lemma marker_a_b_files:
  "encode_files (marker_a_b creds x y) dirA
     = Inr (Some [(''creds.json'', creds), (''a'', x), (''b'', y)])"
  by (simp add: encode_files_def existsSync_def readdirSync_def statSync_isFile_def
      readFileSync_def disk_lookup_def child_def dirA_def marker_a_b_def Let_def
      obj_assign_def)

text \<open>
  Claim C3, as the code has it. A folder that holds exactly the files \<open>a\<close> and \<open>b\<close> has no
  \<^verbatim>\<open>creds.json\<close>, and \<^verbatim>\<open>encodeSession\<close> returns null for it: there is nothing to decode.
\<close>

theorem encode_a_b_alone_counterexample:
  "encodeSession disk_ab dirA = None"
  by (simp add: encodeSession_def encodeSession_result_def encode_body_def encode_files_def
      existsSync_def disk_lookup_def child_def dirA_def disk_ab_def)

text \<open>
  Claim C3, amended. For a folder that holds the marker \<^verbatim>\<open>creds.json\<close> besides the files
  \<open>a\<close> and \<open>b\<close>, whatever the three texts are, \<^verbatim>\<open>encodeSession\<close> returns a string, and
  base64-decoding and JSON-parsing that string gives exactly the mapping of the three names
  to their texts.
\<close>

theorem roundtrip_marker_a_b:
  "\<exists>blob. encodeSession (marker_a_b creds x y) dirA = Some blob \<and>
          decodeSession blob = Some (map_of [(''creds.json'', creds), (''a'', x), (''b'', y)])"
proof -
  let ?files = "[(''creds.json'', creds), (''a'', x), (''b'', y)]"
  have "encodeSession (marker_a_b creds x y) dirA = Some (base64 (JSON_stringify ?files))"
    by (simp add: encodeSession_def encodeSession_result_def encode_body_def
        marker_a_b_files)
  moreover have "decodeSession (base64 (JSON_stringify ?files)) = Some (map_of ?files)"
    by (rule decodeSession_encoded) simp
  ultimately show ?thesis by blast
qed

lemma marker_a_b_blob:
  "encodeSession (marker_a_b ''{}'' ''x'' ''y'') dirA
     = Some ''eyJjcmVkcy5qc29uIjoie30iLCJhIjoieCIsImIiOiJ5In0=''"
  by (simp add: encodeSession_def encodeSession_result_def encode_body_def marker_a_b_files
      JSON_stringify_def own_keys_order_def is_array_index_def is_digit_def
      json_quote_def json_escape_def dquote_def bslash_def Let_def b64_digit_def
      b64_alphabet_def)

theorem roundtrip_marker_a_b_witness:
  "encodeSession (marker_a_b ''{}'' ''x'' ''y'') dirA
     = Some ''eyJjcmVkcy5qc29uIjoie30iLCJhIjoieCIsImIiOiJ5In0='' \<and>
   decodeSession ''eyJjcmVkcy5qc29uIjoie30iLCJhIjoieCIsImIiOiJ5In0=''
     = Some (map_of [(''creds.json'', ''{}''), (''a'', ''x''), (''b'', ''y'')])"
  using roundtrip_marker_a_b [of "''{}''" "''x''" "''y''"] marker_a_b_blob
  by auto

text \<open>
  Claim C5, at the inputs where the code leaves it. In revision two the loop reads every
  entry: a subfolder makes \<^verbatim>\<open>readFileSync\<close> throw, and the encoder returns null instead of
  skipping the entry, as revisions one and three do. In revision one a regular file named
  \<^verbatim>\<open>__proto__\<close> is not in the mapping: the folder encodes as if it held the marker only.
\<close>

theorem encodeSession2_subfolder_null:
  "encodeSession2 disk_sub dirA = None \<and>
   encodeSession disk_sub dirA = Some ''eyJjcmVkcy5qc29uIjoie30ifQ=='' \<and>
   encodeSession disk_proto dirA = Some ''eyJjcmVkcy5qc29uIjoie30ifQ==''"
proof -
  have two: "encodeSession2 disk_sub dirA = None"
    by (simp add: encodeSession2_def encodeSession_result2_def encode_body2_def
        encode_files2_def existsSync_def readdirSync_def readFileSync_def disk_lookup_def
        child_def dirA_def disk_sub_def Let_def obj_assign_def)
  have one: "encode_files disk_sub dirA = Inr (Some [(''creds.json'', ''{}'')])"
    by (simp add: encode_files_def existsSync_def readdirSync_def statSync_isFile_def
        readFileSync_def disk_lookup_def child_def dirA_def disk_sub_def Let_def
        obj_assign_def)
  have proto: "encode_files disk_proto dirA = Inr (Some [(''creds.json'', ''{}'')])"
    by (simp add: encode_files_def existsSync_def readdirSync_def statSync_isFile_def
        readFileSync_def disk_lookup_def child_def dirA_def disk_proto_def Let_def
        obj_assign_def)
  from two one proto show ?thesis
    by (simp add: encodeSession_def encodeSession_result_def encode_body_def base64_example)
qed

end
